theory Spec2Isabelle
  imports Main "HOL-Library.Word"
begin

section \<open>Common types\<close>

text \<open>
  The four contracts of the core (KYCRegistry, DepositToken, BankVault, LendingPool) are
  embedded as state-passing functions. A call that reverts is a value \<open>Inl e\<close>; a call that
  returns is \<open>Inr s'\<close> with the new storage. The EVM discards every storage write of a
  reverted call, so the storage that persists after a call is given by \<open>commit\<close>.

  \<open>uint256\<close> values are natural numbers; Solidity 0.8 checked arithmetic is written out
  (\<open>checked_add\<close>, \<open>checked_sub\<close>, \<open>checked_mul\<close> revert with \<open>Panic\<close>), and the
  \<open>unchecked\<close> blocks of the ERC20 base wrap modulo \<open>2 ^ 256\<close>. \<open>block.timestamp\<close> is
  the argument \<open>now\<close> of each call.
\<close>

type_synonym address = "160 word"
type_synonym uint256 = nat
type_synonym bytes32 = "256 word"

datatype role = DEFAULT_ADMIN_ROLE | COMPLIANCE_ROLE | MINTER_ROLE | TREASURY_ROLE | RISK_ROLE

datatype error =
    NotKYCApproved address
  | InsufficientCollateral
  | BorrowTooLarge
  | DebtOutstanding
  | AmountZero
  | Require string
  | Panic
  | AccessControlUnauthorizedAccount address role
  | ERC20InsufficientBalance address uint256 uint256
  | ERC20InsufficientAllowance address uint256 uint256
  | ERC20InvalidSender address
  | ERC20InvalidReceiver address
  | ERC20InvalidApprover address
  | ERC20InvalidSpender address
  | ReentrancyGuardReentrantCall
  | InsufficientFunds

text \<open>The storage that persists after a call: the result on return, the old storage on revert.\<close>

definition commit :: "'s \<Rightarrow> error + 's \<Rightarrow> 's" where
  "commit s r = (case r of Inl e \<Rightarrow> s | Inr s' \<Rightarrow> s')"

definition MAX_UINT256 :: nat where
  "MAX_UINT256 = 2 ^ 256 - 1"

definition checked_add :: "uint256 \<Rightarrow> uint256 \<Rightarrow> error + uint256" where
  "checked_add a b = (if a + b \<le> MAX_UINT256 then Inr (a + b) else Inl Panic)"

definition checked_sub :: "uint256 \<Rightarrow> uint256 \<Rightarrow> error + uint256" where
  "checked_sub a b = (if b \<le> a then Inr (a - b) else Inl Panic)"

definition checked_mul :: "uint256 \<Rightarrow> uint256 \<Rightarrow> error + uint256" where
  "checked_mul a b = (if a * b \<le> MAX_UINT256 then Inr (a * b) else Inl Panic)"

definition unchecked_add :: "uint256 \<Rightarrow> uint256 \<Rightarrow> uint256" where
  "unchecked_add a b = (a + b) mod 2 ^ 256"

definition unchecked_sub :: "uint256 \<Rightarrow> uint256 \<Rightarrow> uint256" where
  "unchecked_sub a b = (a + 2 ^ 256 - b mod 2 ^ 256) mod 2 ^ 256"

section \<open>KYCRegistry\<close>

record KYCInfo =
  approved :: bool
  level :: "8 word"
  expiresAt :: "64 word"

text \<open>
  \<open>kyc_info\<close> is the private mapping \<open>_kyc\<close>; \<open>kyc_hasRole\<close> is the role table of the
  AccessControl base contract.
\<close>

record KYCRegistry =
  kyc_info :: "address \<Rightarrow> KYCInfo"
  pendingKycHash :: "address \<Rightarrow> bytes32"
  kyc_hasRole :: "role \<Rightarrow> address \<Rightarrow> bool"

definition KYCRegistry_constructor :: "address \<Rightarrow> KYCRegistry" where
  "KYCRegistry_constructor admin =
     \<lparr> kyc_info = (\<lambda>u. \<lparr>approved = False, level = 0, expiresAt = 0\<rparr>)
                    (admin := \<lparr>approved = True, level = 1, expiresAt = 0\<rparr>),
       pendingKycHash = (\<lambda>u. 0),
       kyc_hasRole = (\<lambda>r a. (r = DEFAULT_ADMIN_ROLE \<or> r = COMPLIANCE_ROLE) \<and> a = admin) \<rparr>"

definition isKYCApproved :: "KYCRegistry \<Rightarrow> uint256 \<Rightarrow> address \<Rightarrow> bool" where
  "isKYCApproved r now user =
     (let k = kyc_info r user in
      if \<not> approved k then False
      else if expiresAt k = 0 then True
      else now \<le> unat (expiresAt k))"

text \<open>The modifier \<open>onlyComplianceApproved\<close>: \<open>None\<close> when the body may run.\<close>

definition onlyComplianceApproved :: "KYCRegistry \<Rightarrow> uint256 \<Rightarrow> address \<Rightarrow> error option" where
  "onlyComplianceApproved r now sender =
     (if \<not> kyc_hasRole r COMPLIANCE_ROLE sender then Some (Require ''Not compliance'')
      else if \<not> isKYCApproved r now sender then Some (Require ''Admin must be KYC-approved'')
      else None)"

definition requestKYC :: "KYCRegistry \<Rightarrow> address \<Rightarrow> bytes32 \<Rightarrow> error + KYCRegistry" where
  "requestKYC r sender kycHash =
     (if kycHash = 0 then Inl (Require ''kycHash=0'')
      else Inr (r\<lparr>pendingKycHash := (pendingKycHash r)(sender := kycHash)\<rparr>))"

definition approveFromRequest ::
  "KYCRegistry \<Rightarrow> uint256 \<Rightarrow> address \<Rightarrow> address \<Rightarrow> 8 word \<Rightarrow> 64 word \<Rightarrow> error + KYCRegistry" where
  "approveFromRequest r now sender user lvl exp =
     (case onlyComplianceApproved r now sender of
        Some e \<Rightarrow> Inl e
      | None \<Rightarrow>
          if pendingKycHash r user = 0 then Inl (Require ''No on-chain pending request'')
          else Inr (r\<lparr>kyc_info := (kyc_info r)(user := \<lparr>approved = True, level = lvl, expiresAt = exp\<rparr>),
                     pendingKycHash := (pendingKycHash r)(user := 0)\<rparr>))"

definition approveKYC :: "KYCRegistry \<Rightarrow> uint256 \<Rightarrow> address \<Rightarrow> address \<Rightarrow> error + KYCRegistry" where
  "approveKYC r now sender user =
     (case onlyComplianceApproved r now sender of
        Some e \<Rightarrow> Inl e
      | None \<Rightarrow>
          if pendingKycHash r user = 0 then Inl (Require ''No on-chain pending request'')
          else Inr (r\<lparr>kyc_info := (kyc_info r)(user := \<lparr>approved = True, level = 1, expiresAt = 0\<rparr>),
                     pendingKycHash := (pendingKycHash r)(user := 0)\<rparr>))"

definition revokeKYC :: "KYCRegistry \<Rightarrow> uint256 \<Rightarrow> address \<Rightarrow> address \<Rightarrow> error + KYCRegistry" where
  "revokeKYC r now sender user =
     (case onlyComplianceApproved r now sender of
        Some e \<Rightarrow> Inl e
      | None \<Rightarrow> Inr (r\<lparr>kyc_info := (kyc_info r)(user := (kyc_info r user)\<lparr>approved := False\<rparr>)\<rparr>))"

section \<open>DepositToken\<close>

record DepositToken =
  balances :: "address \<Rightarrow> uint256"
  totalSupply :: uint256
  allowances :: "address \<Rightarrow> address \<Rightarrow> uint256"
  isSystemAddress :: "address \<Rightarrow> bool"
  tok_hasRole :: "role \<Rightarrow> address \<Rightarrow> bool"

definition DepositToken_constructor :: "address \<Rightarrow> DepositToken" where
  "DepositToken_constructor admin =
     \<lparr> balances = (\<lambda>a. 0), totalSupply = 0, allowances = (\<lambda>a b. 0),
       isSystemAddress = (\<lambda>a. False),
       tok_hasRole = (\<lambda>r a. r = DEFAULT_ADMIN_ROLE \<and> a = admin) \<rparr>"

text \<open>
  Modelled from the spec: the ERC20 base contract that DepositToken inherits
  (\<open>super._update\<close>, \<open>_mint\<close>, \<open>_burn\<close>, \<open>_transfer\<close>, \<open>_spendAllowance\<close>, \<open>_approve\<close>) is
  imported from a library and is not among the sources. The spec says: the balance delta is
  applied atomically and the call fails with InsufficientBalance if a debit would underflow;
  a mint adds to \<open>totalSupply\<close>, a burn takes from it. The definitions follow the library's
  version 5: the addition to \<open>totalSupply\<close> is checked, the other updates are unchecked.
\<close>

definition ERC20_update :: "DepositToken \<Rightarrow> address \<Rightarrow> address \<Rightarrow> uint256 \<Rightarrow> error + DepositToken" where
  "ERC20_update t from to value =
     (case (if from = 0 then
              (case checked_add (totalSupply t) value of
                 Inl e \<Rightarrow> Inl e
               | Inr ts \<Rightarrow> Inr (t\<lparr>totalSupply := ts\<rparr>))
            else
              (let fromBalance = balances t from in
               if fromBalance < value then Inl (ERC20InsufficientBalance from fromBalance value)
               else Inr (t\<lparr>balances := (balances t)(from := fromBalance - value)\<rparr>)))
      of
        Inl e \<Rightarrow> Inl e
      | Inr t1 \<Rightarrow>
          if to = 0 then Inr (t1\<lparr>totalSupply := unchecked_sub (totalSupply t1) value\<rparr>)
          else Inr (t1\<lparr>balances := (balances t1)(to := unchecked_add (balances t1 to) value)\<rparr>))"

text \<open>
  \<open>DepositToken._update\<close>. The argument \<open>K\<close> is what \<open>kyc.isKYCApproved\<close> answers in the
  current block.
\<close>

definition DepositToken_update ::
  "(address \<Rightarrow> bool) \<Rightarrow> DepositToken \<Rightarrow> address \<Rightarrow> address \<Rightarrow> uint256 \<Rightarrow> error + DepositToken" where
  "DepositToken_update K t from to value =
     (if from = 0 then
        (if \<not> isSystemAddress t to \<and> \<not> K to then Inl (NotKYCApproved to)
         else ERC20_update t from to value)
      else if to = 0 then
        (if \<not> isSystemAddress t from \<and> \<not> K from then Inl (NotKYCApproved from)
         else ERC20_update t from to value)
      else if \<not> isSystemAddress t from \<and> \<not> K from then Inl (NotKYCApproved from)
      else if \<not> isSystemAddress t to \<and> \<not> K to then Inl (NotKYCApproved to)
      else ERC20_update t from to value)"

definition ERC20_mint ::
  "(address \<Rightarrow> bool) \<Rightarrow> DepositToken \<Rightarrow> address \<Rightarrow> uint256 \<Rightarrow> error + DepositToken" where
  "ERC20_mint K t account value =
     (if account = 0 then Inl (ERC20InvalidReceiver 0)
      else DepositToken_update K t 0 account value)"

definition ERC20_burn ::
  "(address \<Rightarrow> bool) \<Rightarrow> DepositToken \<Rightarrow> address \<Rightarrow> uint256 \<Rightarrow> error + DepositToken" where
  "ERC20_burn K t account value =
     (if account = 0 then Inl (ERC20InvalidSender 0)
      else DepositToken_update K t account 0 value)"

definition ERC20_transfer ::
  "(address \<Rightarrow> bool) \<Rightarrow> DepositToken \<Rightarrow> address \<Rightarrow> address \<Rightarrow> uint256 \<Rightarrow> error + DepositToken" where
  "ERC20_transfer K t from to value =
     (if from = 0 then Inl (ERC20InvalidSender 0)
      else if to = 0 then Inl (ERC20InvalidReceiver 0)
      else DepositToken_update K t from to value)"

definition ERC20_approve :: "DepositToken \<Rightarrow> address \<Rightarrow> address \<Rightarrow> uint256 \<Rightarrow> error + DepositToken" where
  "ERC20_approve t owner spender value =
     (if owner = 0 then Inl (ERC20InvalidApprover 0)
      else if spender = 0 then Inl (ERC20InvalidSpender 0)
      else Inr (t\<lparr>allowances := (allowances t)(owner := (allowances t owner)(spender := value))\<rparr>))"

definition ERC20_spendAllowance ::
  "DepositToken \<Rightarrow> address \<Rightarrow> address \<Rightarrow> uint256 \<Rightarrow> error + DepositToken" where
  "ERC20_spendAllowance t owner spender value =
     (let currentAllowance = allowances t owner spender in
      if currentAllowance < MAX_UINT256 then
        (if currentAllowance < value then Inl (ERC20InsufficientAllowance spender currentAllowance value)
         else ERC20_approve t owner spender (currentAllowance - value))
      else Inr t)"

text \<open>
  Modelled from the spec: the AccessControl base contract (the role table, \<open>onlyRole\<close>,
  \<open>grantRole\<close>) is imported from a library and is not among the sources. The spec says: the
  roles are capability checks, and a call without the required capability fails. Every role is
  administered by \<open>DEFAULT_ADMIN_ROLE\<close>.

  In the external functions below, \<open>sender\<close> is \<open>msg.sender\<close>.
\<close>

definition onlyRole :: "(role \<Rightarrow> address \<Rightarrow> bool) \<Rightarrow> role \<Rightarrow> address \<Rightarrow> error option" where
  "onlyRole hasRole r sender =
     (if hasRole r sender then None else Some (AccessControlUnauthorizedAccount sender r))"

definition setSystemAddress :: "DepositToken \<Rightarrow> address \<Rightarrow> address \<Rightarrow> bool \<Rightarrow> error + DepositToken" where
  "setSystemAddress t sender who enabled =
     (case onlyRole (tok_hasRole t) DEFAULT_ADMIN_ROLE sender of
        Some e \<Rightarrow> Inl e
      | None \<Rightarrow> Inr (t\<lparr>isSystemAddress := (isSystemAddress t)(who := enabled)\<rparr>))"

definition grantRole :: "DepositToken \<Rightarrow> address \<Rightarrow> role \<Rightarrow> address \<Rightarrow> error + DepositToken" where
  "grantRole t sender r account =
     (case onlyRole (tok_hasRole t) DEFAULT_ADMIN_ROLE sender of
        Some e \<Rightarrow> Inl e
      | None \<Rightarrow> Inr (t\<lparr>tok_hasRole := (tok_hasRole t)(r := (tok_hasRole t r)(account := True))\<rparr>))"

definition mint ::
  "(address \<Rightarrow> bool) \<Rightarrow> DepositToken \<Rightarrow> address \<Rightarrow> address \<Rightarrow> uint256 \<Rightarrow> error + DepositToken" where
  "mint K t sender to amount =
     (case onlyRole (tok_hasRole t) MINTER_ROLE sender of
        Some e \<Rightarrow> Inl e
      | None \<Rightarrow> ERC20_mint K t to amount)"

definition burn ::
  "(address \<Rightarrow> bool) \<Rightarrow> DepositToken \<Rightarrow> address \<Rightarrow> address \<Rightarrow> uint256 \<Rightarrow> error + DepositToken" where
  "burn K t sender from amount =
     (case onlyRole (tok_hasRole t) MINTER_ROLE sender of
        Some e \<Rightarrow> Inl e
      | None \<Rightarrow> ERC20_burn K t from amount)"

definition transfer ::
  "(address \<Rightarrow> bool) \<Rightarrow> DepositToken \<Rightarrow> address \<Rightarrow> address \<Rightarrow> uint256 \<Rightarrow> error + DepositToken" where
  "transfer K t sender to value = ERC20_transfer K t sender to value"

definition approve :: "DepositToken \<Rightarrow> address \<Rightarrow> address \<Rightarrow> uint256 \<Rightarrow> error + DepositToken" where
  "approve t sender spender value = ERC20_approve t sender spender value"

definition transferFrom ::
  "(address \<Rightarrow> bool) \<Rightarrow> DepositToken \<Rightarrow> address \<Rightarrow> address \<Rightarrow> address \<Rightarrow> uint256 \<Rightarrow> error + DepositToken" where
  "transferFrom K t sender from to value =
     (case ERC20_spendAllowance t from sender value of
        Inl e \<Rightarrow> Inl e
      | Inr t1 \<Rightarrow> ERC20_transfer K t1 from to value)"

text \<open>Sequences of token calls, each in a block with its own registry answers \<open>K\<close>.\<close>

datatype token_op =
    Mint address address uint256
  | Burn address address uint256
  | Transfer address address uint256
  | TransferFrom address address address uint256
  | Approve address address uint256
  | SetSystemAddress address address bool
  | GrantRole address role address

fun apply_token_op :: "(address \<Rightarrow> bool) \<Rightarrow> DepositToken \<Rightarrow> token_op \<Rightarrow> error + DepositToken" where
  "apply_token_op K t (Mint sender to amount) = mint K t sender to amount"
| "apply_token_op K t (Burn sender from amount) = burn K t sender from amount"
| "apply_token_op K t (Transfer sender to value) = transfer K t sender to value"
| "apply_token_op K t (TransferFrom sender from to value) = transferFrom K t sender from to value"
| "apply_token_op K t (Approve sender spender value) = approve t sender spender value"
| "apply_token_op K t (SetSystemAddress sender who enabled) = setSystemAddress t sender who enabled"
| "apply_token_op K t (GrantRole sender r account) = grantRole t sender r account"

text \<open>The storage after each call of a sequence, a reverted call leaving it as it was.\<close>

fun run_token :: "DepositToken \<Rightarrow> ((address \<Rightarrow> bool) \<times> token_op) list \<Rightarrow> DepositToken list" where
  "run_token t [] = []"
| "run_token t (kop # ops) =
     (let t' = commit t (apply_token_op (fst kop) t (snd kop)) in t' # run_token t' ops)"

definition sum_balances :: "DepositToken \<Rightarrow> nat" where
  "sum_balances t = (\<Sum>a\<in>UNIV. balances t a)"

section \<open>The deployed system\<close>

text \<open>
  One registry serves the token, the vault and the pool, as the deployment wires them.
  \<open>ethBalance\<close> is the ether held by each address. The \<open>nonReentrant\<close> guard is the flag
  \<open>vault_entered\<close> (\<open>pool_entered\<close>): a call finds it clear, sets it for the duration of
  the body and clears it on return. Where the body calls only the token and the registry,
  which never call back, nothing reads the flag while it is set, and the functions below
  only test it on entry. \<open>withdraw\<close> hands control to its caller's code, and there the flag
  is set and cleared explicitly.
\<close>

record Account =
  collateral :: uint256
  debt :: uint256
  lastAccrued :: uint256

record LendingPool =
  maxLTVBps :: uint256
  annualRateBps :: uint256
  accounts :: "address \<Rightarrow> Account"
  pool_hasRole :: "role \<Rightarrow> address \<Rightarrow> bool"
  pool_entered :: bool

record BankVault =
  vault_hasRole :: "role \<Rightarrow> address \<Rightarrow> bool"
  vault_entered :: bool

record world =
  kyc :: KYCRegistry
  token :: DepositToken
  vault :: BankVault
  pool :: LendingPool
  vaultAddress :: address
  poolAddress :: address
  ethBalance :: "address \<Rightarrow> nat"

definition LendingPool_constructor :: "address \<Rightarrow> LendingPool" where
  "LendingPool_constructor admin =
     \<lparr> maxLTVBps = 5000, annualRateBps = 800,
       accounts = (\<lambda>u. \<lparr>collateral = 0, debt = 0, lastAccrued = 0\<rparr>),
       pool_hasRole = (\<lambda>r a. (r = DEFAULT_ADMIN_ROLE \<or> r = RISK_ROLE) \<and> a = admin),
       pool_entered = False \<rparr>"

definition BankVault_constructor :: "address \<Rightarrow> BankVault" where
  "BankVault_constructor admin =
     \<lparr> vault_hasRole = (\<lambda>r a. (r = DEFAULT_ADMIN_ROLE \<or> r = TREASURY_ROLE) \<and> a = admin),
       vault_entered = False \<rparr>"

text \<open>
  A value call \<open>dst.call{value: amount}("")\<close> made by \<open>src\<close>. The call fails when \<open>src\<close>
  does not hold the amount. Otherwise the ether moves and the code at \<open>dst\<close> (its receive or
  fallback function) runs with all the gas on the resulting state: \<open>callee\<close> is that code,
  \<open>None\<close> when it reverts and the state it leaves otherwise. The result is \<open>None\<close> when
  \<open>ok\<close> is false; every effect of a failed call is discarded. The code of the caller is not
  part of the repository, so it is an argument: any function of the state, which covers
  whatever calls into the contracts a real callee can make. An externally owned account has
  no code (\<open>externally_owned\<close>).
\<close>

type_synonym code = "world \<Rightarrow> world option"

definition call_value :: "code \<Rightarrow> world \<Rightarrow> address \<Rightarrow> address \<Rightarrow> uint256 \<Rightarrow> world option" where
  "call_value callee w src dst amount =
     (if ethBalance w src < amount then None
      else let e1 = (ethBalance w)(src := ethBalance w src - amount)
           in callee (w\<lparr>ethBalance := e1(dst := e1 dst + amount)\<rparr>))"

definition externally_owned :: code where
  "externally_owned w = Some w"

definition rejecting :: code where
  "rejecting w = None"

section \<open>BankVault\<close>

text \<open>
  \<open>deposit\<close> is payable: the value moves from the sender to the vault when the call starts,
  and a sender that does not hold the value cannot make the call.
\<close>

definition deposit :: "world \<Rightarrow> uint256 \<Rightarrow> address \<Rightarrow> uint256 \<Rightarrow> error + world" where
  "deposit w now sender msg_value =
     (if ethBalance w sender < msg_value then Inl InsufficientFunds
      else
        let e1 = (ethBalance w)(sender := ethBalance w sender - msg_value);
            w0 = w\<lparr>ethBalance := e1(vaultAddress w := e1 (vaultAddress w) + msg_value)\<rparr>
        in
        if vault_entered (vault w0) then Inl ReentrancyGuardReentrantCall
        else if \<not> isKYCApproved (kyc w0) now sender then Inl (NotKYCApproved sender)
        else if \<not> msg_value > 0 then Inl (Require ''Deposit must be > 0'')
        else
          (case mint (isKYCApproved (kyc w0) now) (token w0) (vaultAddress w0) sender msg_value of
             Inl e \<Rightarrow> Inl e
           | Inr t \<Rightarrow> Inr (w0\<lparr>token := t\<rparr>)))"

text \<open>\<open>withdraw\<close>; \<open>callee\<close> is the code of \<open>msg.sender\<close> that the payout runs.\<close>

definition withdraw :: "code \<Rightarrow> world \<Rightarrow> uint256 \<Rightarrow> address \<Rightarrow> uint256 \<Rightarrow> error + world" where
  "withdraw callee w now sender amount =
     (if vault_entered (vault w) then Inl ReentrancyGuardReentrantCall
      else
        let w0 = w\<lparr>vault := (vault w)\<lparr>vault_entered := True\<rparr>\<rparr> in
        if \<not> isKYCApproved (kyc w0) now sender then Inl (NotKYCApproved sender)
        else if \<not> amount > 0 then Inl (Require ''Amount must be > 0'')
        else
          (case burn (isKYCApproved (kyc w0) now) (token w0) (vaultAddress w0) sender amount of
             Inl e \<Rightarrow> Inl e
           | Inr t \<Rightarrow>
               (case call_value callee (w0\<lparr>token := t\<rparr>) (vaultAddress w0) sender amount of
                  None \<Rightarrow> Inl (Require ''ETH transfer failed'')
                | Some w1 \<Rightarrow> Inr (w1\<lparr>vault := (vault w1)\<lparr>vault_entered := False\<rparr>\<rparr>))))"

definition transferBKD :: "world \<Rightarrow> uint256 \<Rightarrow> address \<Rightarrow> address \<Rightarrow> uint256 \<Rightarrow> error + world" where
  "transferBKD w now sender to amount =
     (if vault_entered (vault w) then Inl ReentrancyGuardReentrantCall
      else if \<not> isKYCApproved (kyc w) now sender then Inl (NotKYCApproved sender)
      else if \<not> isKYCApproved (kyc w) now to then Inl (NotKYCApproved to)
      else if \<not> amount > 0 then Inl (Require ''Amount must be > 0'')
      else
        (case transferFrom (isKYCApproved (kyc w) now) (token w) (vaultAddress w) sender (vaultAddress w) amount of
           Inl e \<Rightarrow> Inl e
         | Inr t1 \<Rightarrow>
             (case transfer (isKYCApproved (kyc w) now) t1 (vaultAddress w) to amount of
                Inl e \<Rightarrow> Inl e
              | Inr t2 \<Rightarrow> Inr (w\<lparr>token := t2\<rparr>))))"

section \<open>LendingPool\<close>

definition setParams :: "LendingPool \<Rightarrow> address \<Rightarrow> uint256 \<Rightarrow> uint256 \<Rightarrow> error + LendingPool" where
  "setParams p sender ltv rate =
     (case onlyRole (pool_hasRole p) RISK_ROLE sender of
        Some e \<Rightarrow> Inl e
      | None \<Rightarrow>
          if \<not> ltv \<le> 9000 then Inl (Require ''LTV too high'')
          else if \<not> rate \<le> 5000 then Inl (Require ''APR too high'')
          else Inr (p\<lparr>maxLTVBps := ltv, annualRateBps := rate\<rparr>))"

text \<open>\<open>_accrue\<close>; \<open>365 days\<close> is 31536000 seconds.\<close>

definition accrue :: "LendingPool \<Rightarrow> uint256 \<Rightarrow> address \<Rightarrow> error + LendingPool" where
  "accrue p now user =
     (let a = accounts p user in
      if debt a = 0 then Inr (p\<lparr>accounts := (accounts p)(user := a\<lparr>lastAccrued := now\<rparr>)\<rparr>)
      else
        (case checked_sub now (lastAccrued a) of
           Inl e \<Rightarrow> Inl e
         | Inr dt \<Rightarrow>
             if dt = 0 then Inr p
             else
               (case checked_mul (debt a) (annualRateBps p) of
                  Inl e \<Rightarrow> Inl e
                | Inr x \<Rightarrow>
                    (case checked_mul x dt of
                       Inl e \<Rightarrow> Inl e
                     | Inr y \<Rightarrow>
                         (let interest = y div (10000 * 31536000) in
                          case checked_add (debt a) interest of
                            Inl e \<Rightarrow> Inl e
                          | Inr d \<Rightarrow>
                              Inr (p\<lparr>accounts := (accounts p)(user := a\<lparr>debt := d, lastAccrued := now\<rparr>)\<rparr>))))))"

definition depositCollateral :: "world \<Rightarrow> uint256 \<Rightarrow> address \<Rightarrow> uint256 \<Rightarrow> error + world" where
  "depositCollateral w now sender amount =
     (if pool_entered (pool w) then Inl ReentrancyGuardReentrantCall
      else if \<not> isKYCApproved (kyc w) now sender then Inl (NotKYCApproved sender)
      else if amount = 0 then Inl AmountZero
      else
        (case accrue (pool w) now sender of
           Inl e \<Rightarrow> Inl e
         | Inr p \<Rightarrow>
             (case transferFrom (isKYCApproved (kyc w) now) (token w) (poolAddress w) sender (poolAddress w) amount of
                Inl e \<Rightarrow> Inl e
              | Inr t \<Rightarrow>
                  (case checked_add (collateral (accounts p sender)) amount of
                     Inl e \<Rightarrow> Inl e
                   | Inr c \<Rightarrow>
                       Inr (w\<lparr>pool := p\<lparr>accounts := (accounts p)(sender := (accounts p sender)\<lparr>collateral := c\<rparr>)\<rparr>,
                              token := t\<rparr>)))))"

definition withdrawCollateral :: "world \<Rightarrow> uint256 \<Rightarrow> address \<Rightarrow> uint256 \<Rightarrow> error + world" where
  "withdrawCollateral w now sender amount =
     (if pool_entered (pool w) then Inl ReentrancyGuardReentrantCall
      else if \<not> isKYCApproved (kyc w) now sender then Inl (NotKYCApproved sender)
      else if amount = 0 then Inl AmountZero
      else
        (case accrue (pool w) now sender of
           Inl e \<Rightarrow> Inl e
         | Inr p \<Rightarrow>
             (let a = accounts p sender in
              if \<not> collateral a \<ge> amount then Inl (Require ''Not enough collateral'')
              else
                (let newCollateral = collateral a - amount in
                 case checked_mul newCollateral (maxLTVBps p) of
                   Inl e \<Rightarrow> Inl e
                 | Inr m \<Rightarrow>
                     (let maxDebtAllowed = m div 10000 in
                      if debt a > maxDebtAllowed then Inl InsufficientCollateral
                      else
                        (case transfer (isKYCApproved (kyc w) now) (token w) (poolAddress w) sender amount of
                           Inl e \<Rightarrow> Inl e
                         | Inr t \<Rightarrow>
                             Inr (w\<lparr>pool := p\<lparr>accounts := (accounts p)(sender := a\<lparr>collateral := newCollateral\<rparr>)\<rparr>,
                                    token := t\<rparr>)))))))"

definition borrow :: "world \<Rightarrow> uint256 \<Rightarrow> address \<Rightarrow> uint256 \<Rightarrow> error + world" where
  "borrow w now sender amount =
     (if pool_entered (pool w) then Inl ReentrancyGuardReentrantCall
      else if \<not> isKYCApproved (kyc w) now sender then Inl (NotKYCApproved sender)
      else if amount = 0 then Inl AmountZero
      else
        (case accrue (pool w) now sender of
           Inl e \<Rightarrow> Inl e
         | Inr p \<Rightarrow>
             (let a = accounts p sender in
              case checked_mul (collateral a) (maxLTVBps p) of
                Inl e \<Rightarrow> Inl e
              | Inr m \<Rightarrow>
                  (let maxDebtAllowed = m div 10000 in
                   case checked_add (debt a) amount of
                     Inl e \<Rightarrow> Inl e
                   | Inr d \<Rightarrow>
                       if d > maxDebtAllowed then Inl BorrowTooLarge
                       else
                         (case transfer (isKYCApproved (kyc w) now) (token w) (poolAddress w) sender amount of
                            Inl e \<Rightarrow> Inl e
                          | Inr t \<Rightarrow>
                              Inr (w\<lparr>pool := p\<lparr>accounts := (accounts p)(sender := a\<lparr>debt := d\<rparr>)\<rparr>,
                                     token := t\<rparr>))))))"

definition repay :: "world \<Rightarrow> uint256 \<Rightarrow> address \<Rightarrow> uint256 \<Rightarrow> error + world" where
  "repay w now sender amount =
     (if pool_entered (pool w) then Inl ReentrancyGuardReentrantCall
      else if \<not> isKYCApproved (kyc w) now sender then Inl (NotKYCApproved sender)
      else if amount = 0 then Inl AmountZero
      else
        (case accrue (pool w) now sender of
           Inl e \<Rightarrow> Inl e
         | Inr p \<Rightarrow>
             (let a = accounts p sender in
              if \<not> debt a > 0 then Inl (Require ''No debt'')
              else
                (case transferFrom (isKYCApproved (kyc w) now) (token w) (poolAddress w) sender (poolAddress w) amount of
                   Inl e \<Rightarrow> Inl e
                 | Inr t1 \<Rightarrow>
                     if amount \<ge> debt a then
                       (let over = amount - debt a;
                            p' = p\<lparr>accounts := (accounts p)(sender := a\<lparr>debt := 0, lastAccrued := now\<rparr>)\<rparr>
                        in
                        if over > 0 then
                          (case transfer (isKYCApproved (kyc w) now) t1 (poolAddress w) sender over of
                             Inl e \<Rightarrow> Inl e
                           | Inr t2 \<Rightarrow> Inr (w\<lparr>pool := p', token := t2\<rparr>))
                        else Inr (w\<lparr>pool := p', token := t1\<rparr>))
                     else
                       Inr (w\<lparr>pool := p\<lparr>accounts := (accounts p)(sender := a\<lparr>debt := debt a - amount\<rparr>)\<rparr>,
                              token := t1\<rparr>)))))"

definition getAccount :: "LendingPool \<Rightarrow> uint256 \<Rightarrow> address \<Rightarrow> error + (uint256 \<times> uint256 \<times> uint256)" where
  "getAccount p now user =
     (let a = accounts p user in
      if debt a = 0 then Inr (collateral a, 0, lastAccrued a)
      else
        (case checked_sub now (lastAccrued a) of
           Inl e \<Rightarrow> Inl e
         | Inr dt \<Rightarrow>
             (case checked_mul (debt a) (annualRateBps p) of
                Inl e \<Rightarrow> Inl e
              | Inr x \<Rightarrow>
                  (case checked_mul x dt of
                     Inl e \<Rightarrow> Inl e
                   | Inr y \<Rightarrow>
                       (case checked_add (debt a) (y div (10000 * 31536000)) of
                          Inl e \<Rightarrow> Inl e
                        | Inr d \<Rightarrow> Inr (collateral a, d, lastAccrued a))))))"

section \<open>Derived notions and example states\<close>

text \<open>The invariant of the token: the balances add up to \<open>totalSupply\<close>, which is a \<open>uint256\<close>.\<close>

definition token_inv :: "DepositToken \<Rightarrow> bool" where
  "token_inv t \<longleftrightarrow> sum_balances t = totalSupply t \<and> totalSupply t \<le> MAX_UINT256"

text \<open>Repeated calls of \<open>_accrue\<close> for one user, at the timestamps of a list.\<close>

fun accrue_seq :: "LendingPool \<Rightarrow> address \<Rightarrow> uint256 list \<Rightarrow> LendingPool" where
  "accrue_seq p user [] = p"
| "accrue_seq p user (now # ts) = accrue_seq (commit p (accrue p now user)) user ts"

text \<open>
  A deployment used for the concrete checks: admin 1, customers 2 and 3, vault at address 10,
  pool at address 11.
\<close>

definition ex_kyc :: KYCRegistry where
  "ex_kyc = (KYCRegistry_constructor 1)
     \<lparr>kyc_info := (kyc_info (KYCRegistry_constructor 1))
        (2 := \<lparr>approved = True, level = 1, expiresAt = 0\<rparr>,
         3 := \<lparr>approved = True, level = 1, expiresAt = 0\<rparr>)\<rparr>"

definition ex_token :: DepositToken where
  "ex_token =
     \<lparr> balances = (\<lambda>a. 0)(2 := 100, 3 := 40, 11 := 1000),
       totalSupply = 1140,
       allowances = (\<lambda>a b. 0)(2 := (\<lambda>b. 0)(11 := 500)),
       isSystemAddress = (\<lambda>a. a = 10 \<or> a = 11),
       tok_hasRole = (\<lambda>r a. (r = DEFAULT_ADMIN_ROLE \<and> a = 1) \<or> (r = MINTER_ROLE \<and> a = 10)) \<rparr>"

definition ex_pool :: LendingPool where
  "ex_pool = (LendingPool_constructor 1)
     \<lparr>accounts := (accounts (LendingPool_constructor 1))(2 := \<lparr>collateral = 50, debt = 0, lastAccrued = 0\<rparr>)\<rparr>"

definition ex_world :: world where
  "ex_world =
     \<lparr> kyc = ex_kyc, token = ex_token, vault = BankVault_constructor 1, pool = ex_pool,
       vaultAddress = 10, poolAddress = 11,
       ethBalance = (\<lambda>a. 0)(2 := 1000, 10 := 1140) \<rparr>"

definition cx3_pool :: LendingPool where
  "cx3_pool = (LendingPool_constructor 1)
     \<lparr>accounts := (accounts (LendingPool_constructor 1))(2 := \<lparr>collateral = 50, debt = 20, lastAccrued = 0\<rparr>)\<rparr>"

definition ex_token_ops :: "((address \<Rightarrow> bool) \<times> token_op) list" where
  "ex_token_ops =
     [(\<lambda>a. True, GrantRole 1 MINTER_ROLE 10),
      (\<lambda>a. True, Mint 10 2 100),
      (\<lambda>a. True, Transfer 2 3 30),
      (\<lambda>a. True, Burn 10 2 500),
      (\<lambda>a. a \<noteq> 3, Burn 10 3 10)]"

definition cx4_token :: DepositToken where
  "cx4_token = (DepositToken_constructor 1)\<lparr>balances := (\<lambda>a. 0)(2 := 10), totalSupply := 10\<rparr>"

definition ex_kyc_pending :: KYCRegistry where
  "ex_kyc_pending = commit (KYCRegistry_constructor 1) (requestKYC (KYCRegistry_constructor 1) 4 9)"

definition cx7_pending :: KYCRegistry where
  "cx7_pending = commit (KYCRegistry_constructor 1) (requestKYC (KYCRegistry_constructor 1) 1 7)"

definition cx7_approved :: KYCRegistry where
  "cx7_approved = commit cx7_pending (approveFromRequest cx7_pending 100 1 1 1 50)"

text \<open>The example deployment with a debt of 20 for customer 2, and after a deposit of 100.\<close>

definition ex_world_debt :: world where
  "ex_world_debt = ex_world\<lparr>pool := cx3_pool\<rparr>"

definition ex_world_deposited :: world where
  "ex_world_deposited = commit ex_world (deposit ex_world 7 2 100)"

text \<open>
  A contract at address 2 whose receive function, run in the block with timestamp 8, transfers
  one of its own tokens to customer 3.
\<close>

definition cx9_receive :: code where
  "cx9_receive w =
     (case transfer (isKYCApproved (kyc w) 8) (token w) 2 3 1 of
        Inl e \<Rightarrow> None
      | Inr t \<Rightarrow> Some (w\<lparr>token := t\<rparr>))"

text \<open>
  Modelled from the spec: \<open>grantRole\<close> and \<open>revokeRole\<close> of the registry belong to the
  AccessControl base contract, which is not among the sources; every role is administered by
  \<open>DEFAULT_ADMIN_ROLE\<close>.
\<close>

definition kyc_grantRole :: "KYCRegistry \<Rightarrow> address \<Rightarrow> role \<Rightarrow> address \<Rightarrow> error + KYCRegistry" where
  "kyc_grantRole r sender ro account =
     (case onlyRole (kyc_hasRole r) DEFAULT_ADMIN_ROLE sender of
        Some e \<Rightarrow> Inl e
      | None \<Rightarrow> Inr (r\<lparr>kyc_hasRole := (kyc_hasRole r)(ro := (kyc_hasRole r ro)(account := True))\<rparr>))"

definition kyc_revokeRole :: "KYCRegistry \<Rightarrow> address \<Rightarrow> role \<Rightarrow> address \<Rightarrow> error + KYCRegistry" where
  "kyc_revokeRole r sender ro account =
     (case onlyRole (kyc_hasRole r) DEFAULT_ADMIN_ROLE sender of
        Some e \<Rightarrow> Inl e
      | None \<Rightarrow> Inr (r\<lparr>kyc_hasRole := (kyc_hasRole r)(ro := (kyc_hasRole r ro)(account := False))\<rparr>))"

text \<open>Sequences of registry calls, each with the timestamp of its block.\<close>

datatype kyc_op =
    RequestKYC address bytes32
  | ApproveFromRequest address address "8 word" "64 word"
  | ApproveKYC address address
  | RevokeKYC address address
  | KycGrantRole address role address
  | KycRevokeRole address role address

fun apply_kyc_op :: "KYCRegistry \<Rightarrow> uint256 \<Rightarrow> kyc_op \<Rightarrow> error + KYCRegistry" where
  "apply_kyc_op r now (RequestKYC sender kycHash) = requestKYC r sender kycHash"
| "apply_kyc_op r now (ApproveFromRequest sender user lvl exp) = approveFromRequest r now sender user lvl exp"
| "apply_kyc_op r now (ApproveKYC sender user) = approveKYC r now sender user"
| "apply_kyc_op r now (RevokeKYC sender user) = revokeKYC r now sender user"
| "apply_kyc_op r now (KycGrantRole sender ro account) = kyc_grantRole r sender ro account"
| "apply_kyc_op r now (KycRevokeRole sender ro account) = kyc_revokeRole r sender ro account"

fun run_kyc :: "KYCRegistry \<Rightarrow> (uint256 \<times> kyc_op) list \<Rightarrow> KYCRegistry" where
  "run_kyc r [] = r"
| "run_kyc r (tc # ops) = run_kyc (commit r (apply_kyc_op r (fst tc) (snd tc))) ops"

text \<open>Whether a call is a request published by the account \<open>user\<close>.\<close>

fun requests_for :: "address \<Rightarrow> kyc_op \<Rightarrow> bool" where
  "requests_for user (RequestKYC sender kycHash) = (sender = user)"
| "requests_for user (ApproveFromRequest sender u lvl exp) = False"
| "requests_for user (ApproveKYC sender u) = False"
| "requests_for user (RevokeKYC sender u) = False"
| "requests_for user (KycGrantRole sender ro account) = False"
| "requests_for user (KycRevokeRole sender ro account) = False"

definition ex_kyc_approved :: KYCRegistry where
  "ex_kyc_approved = commit ex_kyc_pending (approveFromRequest ex_kyc_pending 100 1 4 1 0)"

section \<open>Auxiliary lemmas\<close>

lemmas kyc_defs = approveFromRequest_def onlyComplianceApproved_def isKYCApproved_def revokeKYC_def requestKYC_def

lemmas ex_defs = ex_world_def ex_kyc_def ex_token_def ex_pool_def KYCRegistry_constructor_def
  LendingPool_constructor_def BankVault_constructor_def

lemmas tok_defs = transfer_def transferFrom_def ERC20_transfer_def ERC20_spendAllowance_def
  ERC20_approve_def DepositToken_update_def ERC20_update_def mint_def burn_def ERC20_mint_def
  ERC20_burn_def onlyRole_def unchecked_add_def unchecked_sub_def

lemmas arith_defs = checked_add_def checked_sub_def checked_mul_def MAX_UINT256_def

lemma checked_simps:
  "checked_add a b = Inr c \<longleftrightarrow> c = a + b \<and> a + b \<le> MAX_UINT256"
  "checked_sub a b = Inr c \<longleftrightarrow> c = a - b \<and> b \<le> a"
  "checked_mul a b = Inr c \<longleftrightarrow> c = a * b \<and> a * b \<le> MAX_UINT256"
  by (auto simp: checked_add_def checked_sub_def checked_mul_def)

lemma accrue_Inr:
  assumes "accrue p now user = Inr p'"
  shows "if debt (accounts p user) = 0
         then p' = p\<lparr>accounts := (accounts p)(user := (accounts p user)\<lparr>lastAccrued := now\<rparr>)\<rparr>
         else lastAccrued (accounts p user) \<le> now \<and>
              (if now = lastAccrued (accounts p user) then p' = p
               else p' = p\<lparr>accounts := (accounts p)(user := (accounts p user)
                      \<lparr>debt := debt (accounts p user)
                          + debt (accounts p user) * annualRateBps p * (now - lastAccrued (accounts p user)) div 315360000000,
                        lastAccrued := now\<rparr>)\<rparr>)"
  using assms
  by (auto simp: accrue_def Let_def checked_simps split: sum.splits if_splits)

lemma accrue_debt_mono:
  "debt (accounts p user) \<le> debt (accounts (commit p (accrue p now user)) user)"
proof (cases "accrue p now user")
  case (Inl e)
  then show ?thesis by (simp add: commit_def)
next
  case (Inr p')
  from accrue_Inr [OF Inr] show ?thesis
    by (auto simp: commit_def Inr split: if_splits)
qed

lemma accrue_seq_mono:
  "debt (accounts p user) \<le> debt (accounts (accrue_seq p user ts) user)"
proof (induction ts arbitrary: p)
  case Nil
  show ?case by simp
next
  case (Cons now ts)
  have "debt (accounts p user) \<le> debt (accounts (commit p (accrue p now user)) user)"
    by (rule accrue_debt_mono)
  also have "\<dots> \<le> debt (accounts (accrue_seq (commit p (accrue p now user)) user ts) user)"
    by (rule Cons.IH)
  finally show ?case by simp
qed

lemma borrow_ltv:
  assumes "borrow w now sender amount = Inr w'"
  shows "debt (accounts (pool w') sender)
           \<le> collateral (accounts (pool w') sender) * maxLTVBps (pool w') div 10000"
  using assms
  by (auto simp: borrow_def Let_def checked_simps split: sum.splits if_splits)

lemma withdrawCollateral_ltv:
  assumes "withdrawCollateral w now sender amount = Inr w'"
  shows "debt (accounts (pool w') sender)
           \<le> collateral (accounts (pool w') sender) * maxLTVBps (pool w') div 10000"
  using assms
  by (auto simp: withdrawCollateral_def Let_def checked_simps split: sum.splits if_splits)

lemma ex_borrow: "\<exists>w'. borrow ex_world 7 2 20 = Inr w'"
  by (simp add: borrow_def accrue_def isKYCApproved_def ex_defs tok_defs arith_defs)

lemma ex_borrow_too_large: "borrow ex_world 7 2 30 = Inl BorrowTooLarge"
  by (simp add: borrow_def accrue_def isKYCApproved_def ex_defs tok_defs arith_defs)

lemma sum_upd:
  fixes f :: "address \<Rightarrow> nat"
  shows "sum (f(x := v)) UNIV + f x = sum f UNIV + v"
proof -
  have 1: "sum (f(x := v)) UNIV = (f(x := v)) x + sum (f(x := v)) (UNIV - {x})"
    by (rule sum.remove) simp_all
  have 2: "sum f UNIV = f x + sum f (UNIV - {x})"
    by (rule sum.remove) simp_all
  have 3: "sum (f(x := v)) (UNIV - {x}) = sum f (UNIV - {x})"
    by (rule sum.cong) simp_all
  have 4: "(f(x := v)) x = v" by simp
  show ?thesis unfolding 1 2 3 4 by simp
qed

lemma le_sum_all:
  fixes f :: "address \<Rightarrow> nat"
  shows "f x \<le> sum f UNIV"
proof -
  have "sum f UNIV = f x + sum f (UNIV - {x})"
    by (rule sum.remove) simp_all
  then show ?thesis by simp
qed

lemma sum_balances_upd:
  "sum_balances (t\<lparr>balances := (balances t)(x := v)\<rparr>) + balances t x = sum_balances t + v"
proof -
  have "sum_balances (t\<lparr>balances := (balances t)(x := v)\<rparr>) = sum ((balances t)(x := v)) UNIV"
    unfolding sum_balances_def by simp
  moreover have "sum_balances t = sum (balances t) UNIV"
    unfolding sum_balances_def by simp
  ultimately show ?thesis using sum_upd [of "balances t" x v] by simp
qed

lemma balance_le_sum: "balances t x \<le> sum_balances t"
  unfolding sum_balances_def by (rule le_sum_all)

lemma sum_balances_totalSupply_update [simp]:
  "sum_balances (t\<lparr>totalSupply := n\<rparr>) = sum_balances t"
  by (simp add: sum_balances_def)

lemma unchecked_add_small: "a + b \<le> MAX_UINT256 \<Longrightarrow> unchecked_add a b = a + b"
  by (simp add: unchecked_add_def MAX_UINT256_def)

lemma unchecked_sub_small:
  assumes ba: "b \<le> a" and a: "a \<le> MAX_UINT256"
  shows "unchecked_sub a b = a - b"
proof -
  have b: "b mod 2 ^ 256 = b" using ba a by (simp add: MAX_UINT256_def)
  have "unchecked_sub a b = (a + 2 ^ 256 - b) mod 2 ^ 256"
    unfolding unchecked_sub_def b ..
  also have "a + 2 ^ 256 - b = (a - b) + 1 * 2 ^ 256" using ba by simp
  also have "((a - b) + 1 * 2 ^ 256) mod 2 ^ 256 = (a - b) mod 2 ^ 256"
    by (rule mod_mult_self1)
  also have "\<dots> = a - b" using a by (simp add: MAX_UINT256_def)
  finally show ?thesis .
qed

lemma ERC20_update_mint:
  assumes inv: "token_inv t" and to: "to \<noteq> 0" and r: "ERC20_update t 0 to v = Inr t'"
  shows "token_inv t' \<and> t' = t\<lparr>totalSupply := totalSupply t + v,
                                 balances := (balances t)(to := balances t to + v)\<rparr>"
proof -
  from r have ts: "totalSupply t + v \<le> MAX_UINT256"
    by (auto simp: ERC20_update_def checked_simps split: sum.splits if_splits)
  have "balances t to \<le> totalSupply t"
    using inv balance_le_sum [of t to] by (simp add: token_inv_def)
  with ts have small: "balances t to + v \<le> MAX_UINT256" by simp
  from r to have t': "t' = t\<lparr>totalSupply := totalSupply t + v,
                                 balances := (balances t)(to := balances t to + v)\<rparr>"
    by (auto simp: ERC20_update_def checked_simps unchecked_add_small [OF small] split: sum.splits if_splits)
  have "sum_balances t' + balances t to = sum_balances t + (balances t to + v)"
    using sum_balances_upd [of "t\<lparr>totalSupply := totalSupply t + v\<rparr>" to "balances t to + v"]
    by (simp add: t')
  then have "sum_balances t' = totalSupply t + v"
    using inv by (simp add: token_inv_def)
  with ts t' show ?thesis by (simp add: token_inv_def)
qed

lemma ERC20_update_burn:
  assumes inv: "token_inv t" and fr: "from \<noteq> 0" and r: "ERC20_update t from 0 v = Inr t'"
  shows "token_inv t' \<and> v \<le> balances t from
         \<and> t' = t\<lparr>balances := (balances t)(from := balances t from - v),
                   totalSupply := totalSupply t - v\<rparr>"
proof -
  from r fr have v: "v \<le> balances t from"
    by (auto simp: ERC20_update_def Let_def split: sum.splits if_splits)
  have ble: "balances t from \<le> totalSupply t"
    using inv balance_le_sum [of t "from"] by (simp add: token_inv_def)
  have ts: "totalSupply t \<le> MAX_UINT256" using inv by (simp add: token_inv_def)
  have us: "unchecked_sub (totalSupply t) v = totalSupply t - v"
    using v ble ts by (intro unchecked_sub_small) auto
  from r fr have t': "t' = t\<lparr>balances := (balances t)(from := balances t from - v),
                   totalSupply := totalSupply t - v\<rparr>"
    by (auto simp: ERC20_update_def Let_def us split: sum.splits if_splits)
  have "sum_balances t' + balances t from = sum_balances t + (balances t from - v)"
    using sum_balances_upd [of t "from" "balances t from - v"] by (simp add: t')
  then have "sum_balances t' = totalSupply t - v"
    using inv v by (simp add: token_inv_def)
  with ts t' v show ?thesis by (simp add: token_inv_def)
qed

lemma ERC20_update_transfer:
  assumes inv: "token_inv t" and fr: "from \<noteq> 0" and to: "to \<noteq> 0"
    and r: "ERC20_update t from to v = Inr t'"
  shows "token_inv t' \<and> v \<le> balances t from
         \<and> t' = t\<lparr>balances := ((balances t)(from := balances t from - v))
                      (to := ((balances t)(from := balances t from - v)) to + v)\<rparr>"
proof -
  let ?t1 = "t\<lparr>balances := (balances t)(from := balances t from - v)\<rparr>"
  from r fr have v: "v \<le> balances t from"
    by (auto simp: ERC20_update_def Let_def split: sum.splits if_splits)
  have s1: "sum_balances ?t1 + balances t from = sum_balances t + (balances t from - v)"
    using sum_balances_upd [of t "from" "balances t from - v"] by simp
  have ble: "balances t from \<le> sum_balances t" by (rule balance_le_sum)
  from s1 v ble have s1': "sum_balances ?t1 + v = sum_balances t" by simp
  have "balances ?t1 to \<le> sum_balances ?t1" by (rule balance_le_sum)
  with s1' inv have small: "balances ?t1 to + v \<le> MAX_UINT256"
    by (simp add: token_inv_def)
  from r fr to have t': "t' = ?t1\<lparr>balances := (balances ?t1)(to := balances ?t1 to + v)\<rparr>"
    using unchecked_add_small [OF small]
    by (auto simp: ERC20_update_def Let_def split: sum.splits if_splits)
  have "sum_balances t' + balances ?t1 to = sum_balances ?t1 + (balances ?t1 to + v)"
    using sum_balances_upd [of ?t1 to "balances ?t1 to + v"] by (simp add: t')
  then have "sum_balances t' = sum_balances t"
    using s1' by simp
  with inv t' v show ?thesis by (simp add: token_inv_def)
qed

lemma ERC20_update_zero:
  assumes inv: "token_inv t" and r: "ERC20_update t 0 0 v = Inr t'"
  shows "token_inv t'"
proof -
  from r have ts: "totalSupply t + v \<le> MAX_UINT256"
    by (auto simp: ERC20_update_def checked_simps split: sum.splits if_splits)
  have us: "unchecked_sub (totalSupply t + v) v = totalSupply t"
    using ts unchecked_sub_small [of v "totalSupply t + v"] by simp
  from r have "t' = t\<lparr>totalSupply := totalSupply t\<rparr>"
    by (auto simp: ERC20_update_def checked_simps us split: sum.splits if_splits)
  with inv show ?thesis by (simp add: token_inv_def)
qed

lemma ERC20_update_inv:
  assumes "token_inv t" and "ERC20_update t from to v = Inr t'"
  shows "token_inv t'"
proof (cases "from = 0")
  case True
  then show ?thesis
    using assms ERC20_update_zero ERC20_update_mint by (cases "to = 0") blast+
next
  case False
  then show ?thesis
    using assms ERC20_update_burn ERC20_update_transfer by (cases "to = 0") blast+
qed

lemma DepositToken_update_Inr:
  "DepositToken_update K t from to v = Inr t' \<Longrightarrow> ERC20_update t from to v = Inr t'"
  by (auto simp: DepositToken_update_def split: if_splits)

lemma DepositToken_update_inv:
  "token_inv t \<Longrightarrow> DepositToken_update K t from to v = Inr t' \<Longrightarrow> token_inv t'"
  using DepositToken_update_Inr ERC20_update_inv by blast

lemma token_inv_allowances [simp]: "token_inv (t\<lparr>allowances := al\<rparr>) = token_inv t"
  by (simp add: token_inv_def sum_balances_def)

lemma token_inv_isSystemAddress [simp]: "token_inv (t\<lparr>isSystemAddress := sy\<rparr>) = token_inv t"
  by (simp add: token_inv_def sum_balances_def)

lemma token_inv_hasRole [simp]: "token_inv (t\<lparr>tok_hasRole := h\<rparr>) = token_inv t"
  by (simp add: token_inv_def sum_balances_def)

lemma ERC20_spendAllowance_inv:
  "token_inv t \<Longrightarrow> ERC20_spendAllowance t owner spender v = Inr t' \<Longrightarrow> token_inv t'"
  by (auto simp: ERC20_spendAllowance_def ERC20_approve_def Let_def split: if_splits)

lemma ERC20_transfer_inv:
  "token_inv t \<Longrightarrow> ERC20_transfer K t from to v = Inr t' \<Longrightarrow> token_inv t'"
  by (auto simp: ERC20_transfer_def split: if_splits dest: DepositToken_update_inv)

lemma transfer_inv:
  "token_inv t \<Longrightarrow> transfer K t sender to v = Inr t' \<Longrightarrow> token_inv t'"
  by (simp add: transfer_def ERC20_transfer_inv)

lemma transferFrom_inv:
  "token_inv t \<Longrightarrow> transferFrom K t sender from to v = Inr t' \<Longrightarrow> token_inv t'"
  by (auto simp: transferFrom_def split: sum.splits
      dest: ERC20_spendAllowance_inv ERC20_transfer_inv)

lemma mint_inv:
  "token_inv t \<Longrightarrow> mint K t sender to v = Inr t' \<Longrightarrow> token_inv t'"
  by (auto simp: mint_def ERC20_mint_def split: option.splits if_splits dest: DepositToken_update_inv)

lemma burn_inv:
  "token_inv t \<Longrightarrow> burn K t sender from v = Inr t' \<Longrightarrow> token_inv t'"
  by (auto simp: burn_def ERC20_burn_def split: option.splits if_splits dest: DepositToken_update_inv)

lemma apply_token_op_inv:
  assumes "token_inv t" and "apply_token_op K t op = Inr t'"
  shows "token_inv t'"
proof (cases op)
  case (Mint x1 x2 x3)
  with assms show ?thesis by (auto dest: mint_inv)
next
  case (Burn x1 x2 x3)
  with assms show ?thesis by (auto dest: burn_inv)
next
  case (Transfer x1 x2 x3)
  with assms show ?thesis by (auto dest: transfer_inv)
next
  case (TransferFrom x1 x2 x3 x4)
  with assms show ?thesis by (auto dest: transferFrom_inv)
next
  case (Approve x1 x2 x3)
  with assms show ?thesis
    by (auto simp: approve_def ERC20_approve_def split: if_splits)
next
  case (SetSystemAddress x1 x2 x3)
  with assms show ?thesis
    by (auto simp: setSystemAddress_def split: option.splits)
next
  case (GrantRole x1 x2 x3)
  with assms show ?thesis
    by (auto simp: grantRole_def split: option.splits)
qed

lemma commit_token_inv:
  "token_inv t \<Longrightarrow> token_inv (commit t (apply_token_op K t op))"
  by (cases "apply_token_op K t op") (auto simp: commit_def dest: apply_token_op_inv)

lemma run_token_inv:
  "token_inv t \<Longrightarrow> \<forall>t' \<in> set (run_token t ops). token_inv t'"
proof (induction ops arbitrary: t)
  case Nil
  show ?case by simp
next
  case (Cons kop ops)
  have "token_inv (commit t (apply_token_op (fst kop) t (snd kop)))"
    using Cons.prems by (rule commit_token_inv)
  with Cons.IH show ?case by (simp add: Let_def)
qed

lemma constructor_inv: "token_inv (DepositToken_constructor admin)"
  by (simp add: token_inv_def sum_balances_def DepositToken_constructor_def)

lemma ex_token_ops_run:
  "map (\<lambda>t. (totalSupply t, balances t 2, balances t 3))
     (run_token (DepositToken_constructor 1) ex_token_ops)
   = [(0, 0, 0), (100, 100, 0), (100, 70, 30), (100, 70, 30), (100, 70, 30)]"
  by (simp add: ex_token_ops_def Let_def commit_def DepositToken_constructor_def grantRole_def
      tok_defs arith_defs)

lemma ERC20_spendAllowance_Inr:
  assumes "ERC20_spendAllowance t owner spender v = Inr t1"
  shows "balances t1 = balances t \<and> totalSupply t1 = totalSupply t
         \<and> isSystemAddress t1 = isSystemAddress t \<and> tok_hasRole t1 = tok_hasRole t"
  using assms
  by (auto simp: ERC20_spendAllowance_def ERC20_approve_def Let_def split: if_splits)

lemma ERC20_transfer_Inr:
  assumes inv: "token_inv t" and r: "ERC20_transfer K t from to v = Inr t'"
  shows "token_inv t' \<and> v \<le> balances t from
         \<and> t' = t\<lparr>balances := ((balances t)(from := balances t from - v))
                      (to := ((balances t)(from := balances t from - v)) to + v)\<rparr>"
proof -
  from r have nz: "from \<noteq> 0" "to \<noteq> 0" and u: "DepositToken_update K t from to v = Inr t'"
    by (auto simp: ERC20_transfer_def split: if_splits)
  from ERC20_update_transfer [OF inv nz DepositToken_update_Inr [OF u]] show ?thesis .
qed

lemma transfer_Inr:
  assumes inv: "token_inv t" and r: "transfer K t sender to v = Inr t'" and ne: "sender \<noteq> to"
  shows "token_inv t' \<and> v \<le> balances t sender
         \<and> balances t' = (balances t)(sender := balances t sender - v, to := balances t to + v)
         \<and> totalSupply t' = totalSupply t"
  using ERC20_transfer_Inr [OF inv r [unfolded transfer_def]] ne by auto

lemma transferFrom_Inr:
  assumes inv: "token_inv t" and r: "transferFrom K t sender from to v = Inr t'" and ne: "from \<noteq> to"
  shows "token_inv t' \<and> v \<le> balances t from
         \<and> balances t' = (balances t)(from := balances t from - v, to := balances t to + v)
         \<and> totalSupply t' = totalSupply t"
proof -
  from r obtain t1 where s: "ERC20_spendAllowance t from sender v = Inr t1"
    and tr: "ERC20_transfer K t1 from to v = Inr t'"
    by (auto simp: transferFrom_def split: sum.splits)
  have inv1: "token_inv t1" using inv s by (rule ERC20_spendAllowance_inv)
  from ERC20_transfer_Inr [OF inv1 tr] ERC20_spendAllowance_Inr [OF s] ne
  show ?thesis by auto
qed

lemma mint_Inr:
  assumes inv: "token_inv t" and r: "mint K t sender to v = Inr t'"
  shows "token_inv t' \<and> t' = t\<lparr>totalSupply := totalSupply t + v,
                                 balances := (balances t)(to := balances t to + v)\<rparr>"
proof -
  from r have nz: "to \<noteq> 0" and u: "DepositToken_update K t 0 to v = Inr t'"
    by (auto simp: mint_def ERC20_mint_def split: option.splits if_splits)
  from ERC20_update_mint [OF inv nz DepositToken_update_Inr [OF u]] show ?thesis .
qed

lemma burn_Inr:
  assumes inv: "token_inv t" and r: "burn K t sender from v = Inr t'"
  shows "token_inv t' \<and> v \<le> balances t from
         \<and> t' = t\<lparr>balances := (balances t)(from := balances t from - v),
                   totalSupply := totalSupply t - v\<rparr>"
proof -
  from r have nz: "from \<noteq> 0" and u: "DepositToken_update K t from 0 v = Inr t'"
    by (auto simp: burn_def ERC20_burn_def split: option.splits if_splits)
  from ERC20_update_burn [OF inv nz DepositToken_update_Inr [OF u]] show ?thesis .
qed

lemma deposit_Inr:
  assumes inv: "token_inv (token w)" and r: "deposit w now sender X = Inr w1"
  shows "X \<le> ethBalance w sender \<and> token_inv (token w1)
       \<and> w1 = w\<lparr>ethBalance := ((ethBalance w)(sender := ethBalance w sender - X))
                    (vaultAddress w := ((ethBalance w)(sender := ethBalance w sender - X)) (vaultAddress w) + X),
                 token := (token w)\<lparr>totalSupply := totalSupply (token w) + X,
                            balances := (balances (token w))(sender := balances (token w) sender + X)\<rparr>\<rparr>"
proof -
  let ?e1 = "(ethBalance w)(sender := ethBalance w sender - X)"
  let ?w0 = "w\<lparr>ethBalance := ?e1(vaultAddress w := ?e1 (vaultAddress w) + X)\<rparr>"
  from r have le: "X \<le> ethBalance w sender"
    by (auto simp: deposit_def split: if_splits)
  from r obtain t where m: "mint (isKYCApproved (kyc w) now) (token w) (vaultAddress w) sender X = Inr t"
    and w1: "w1 = ?w0\<lparr>token := t\<rparr>"
    by (auto simp: deposit_def Let_def split: if_splits sum.splits)
  from mint_Inr [OF inv m] have "token_inv t"
    and "t = (token w)\<lparr>totalSupply := totalSupply (token w) + X,
                 balances := (balances (token w))(sender := balances (token w) sender + X)\<rparr>"
    by blast+
  with w1 le show ?thesis by simp
qed

lemma withdraw_Inr:
  assumes inv: "token_inv (token w)"
    and quiet: "\<forall>v v'. callee v = Some v' \<longrightarrow> v' = v"
    and r: "withdraw callee w now sender X = Inr w2"
  shows "X \<le> balances (token w) sender \<and> X \<le> ethBalance w (vaultAddress w)
       \<and> w2 = w\<lparr>vault := (vault w)\<lparr>vault_entered := False\<rparr>,
                 token := (token w)\<lparr>balances := (balances (token w))(sender := balances (token w) sender - X),
                            totalSupply := totalSupply (token w) - X\<rparr>,
                 ethBalance := ((ethBalance w)(vaultAddress w := ethBalance w (vaultAddress w) - X))
                    (sender := ((ethBalance w)(vaultAddress w := ethBalance w (vaultAddress w) - X)) sender + X)\<rparr>"
proof -
  let ?w0 = "w\<lparr>vault := (vault w)\<lparr>vault_entered := True\<rparr>\<rparr>"
  from r obtain t w1 where b: "burn (isKYCApproved (kyc w) now) (token w) (vaultAddress w) sender X = Inr t"
    and c: "call_value callee (?w0\<lparr>token := t\<rparr>) (vaultAddress w) sender X = Some w1"
    and w2: "w2 = w1\<lparr>vault := (vault w1)\<lparr>vault_entered := False\<rparr>\<rparr>"
    by (auto simp: withdraw_def Let_def split: if_splits sum.splits option.splits)
  let ?e1 = "(ethBalance w)(vaultAddress w := ethBalance w (vaultAddress w) - X)"
  from c have le: "X \<le> ethBalance w (vaultAddress w)"
    and cs: "callee (?w0\<lparr>token := t, ethBalance := ?e1(sender := ?e1 sender + X)\<rparr>) = Some w1"
    by (auto simp: call_value_def Let_def split: if_splits)
  from quiet cs have w1: "w1 = ?w0\<lparr>token := t, ethBalance := ?e1(sender := ?e1 sender + X)\<rparr>"
    by blast
  from burn_Inr [OF inv b] have "X \<le> balances (token w) sender"
    and "t = (token w)\<lparr>balances := (balances (token w))(sender := balances (token w) sender - X),
                   totalSupply := totalSupply (token w) - X\<rparr>"
    by blast+
  with le w1 w2 show ?thesis by simp
qed

lemma ex_token_inv: "token_inv ex_token"
proof -
  let ?z = "\<lambda>a::address. 0::nat"
  let ?f1 = "?z(2 := 100)"
  let ?f2 = "?f1(3 := 40)"
  let ?f3 = "?f2(11 := 1000)"
  have 0: "sum ?z UNIV = 0" by simp
  have 1: "sum ?f1 UNIV = 100" using sum_upd [of ?z 2 100] unfolding 0 by simp
  have 2: "sum ?f2 UNIV = 140" using sum_upd [of ?f1 3 40] unfolding 1 by simp
  have 3: "sum ?f3 UNIV = 1140" using sum_upd [of ?f2 11 1000] unfolding 2 by simp
  have "sum_balances ex_token = sum ?f3 UNIV"
    unfolding sum_balances_def ex_token_def by simp
  with 3 show ?thesis
    by (simp add: token_inv_def ex_token_def MAX_UINT256_def)
qed

lemma deposit_withdraw_returns:
  assumes inv: "token_inv (token w)"
    and k1: "isKYCApproved (kyc w) now sender" and k2: "isKYCApproved (kyc w) now2 sender"
    and x: "0 < X" and e: "X \<le> ethBalance w sender" and g: "\<not> vault_entered (vault w)"
    and m: "tok_hasRole (token w) MINTER_ROLE (vaultAddress w)" and nz: "sender \<noteq> 0"
    and ts: "totalSupply (token w) + X \<le> MAX_UINT256" and acc: "\<forall>v. callee v = Some v"
  shows "\<exists>w1 w2. deposit w now sender X = Inr w1 \<and> withdraw callee w1 now2 sender X = Inr w2"
proof -
  have "\<exists>w1. deposit w now sender X = Inr w1"
    using k1 x e g m nz ts
    by (simp add: deposit_def Let_def mint_def onlyRole_def ERC20_mint_def DepositToken_update_def
        ERC20_update_def checked_add_def)
  then obtain w1 where d: "deposit w now sender X = Inr w1" ..
  note D = deposit_Inr [OF inv d]
  then have w1: "w1 = w\<lparr>ethBalance := ((ethBalance w)(sender := ethBalance w sender - X))
                    (vaultAddress w := ((ethBalance w)(sender := ethBalance w sender - X)) (vaultAddress w) + X),
                 token := (token w)\<lparr>totalSupply := totalSupply (token w) + X,
                            balances := (balances (token w))(sender := balances (token w) sender + X)\<rparr>\<rparr>"
    by blast
  have "\<exists>w2. withdraw callee w1 now2 sender X = Inr w2"
    using k2 x g m nz acc unfolding w1
    by (simp add: withdraw_def burn_def onlyRole_def ERC20_burn_def DepositToken_update_def
        ERC20_update_def call_value_def Let_def)
  with d show ?thesis by blast
qed

lemma pending_zero_apply:
  assumes "pendingKycHash r user = 0" and "\<not> requests_for user op"
  shows "pendingKycHash (commit r (apply_kyc_op r now op)) user = 0"
  using assms
  by (cases op)
     (auto simp: commit_def requestKYC_def approveFromRequest_def approveKYC_def revokeKYC_def
        kyc_grantRole_def kyc_revokeRole_def split: option.splits if_splits)

lemma pending_zero_run:
  assumes "pendingKycHash r user = 0" and "\<forall>tc \<in> set ops. \<not> requests_for user (snd tc)"
  shows "pendingKycHash (run_kyc r ops) user = 0"
  using assms
proof (induction ops arbitrary: r)
  case Nil
  then show ?case by simp
next
  case (Cons tc ops)
  have "pendingKycHash (commit r (apply_kyc_op r (fst tc) (snd tc))) user = 0"
    using Cons.prems by (intro pending_zero_apply) auto
  with Cons show ?case by simp
qed

lemma approve_without_pending:
  assumes "pendingKycHash r user = 0"
  shows "approveFromRequest r now sender user lvl exp
           = Inl (case onlyComplianceApproved r now sender of
                    Some e \<Rightarrow> e
                  | None \<Rightarrow> Require ''No on-chain pending request'')"
  using assms by (simp add: approveFromRequest_def split: option.splits)

lemma repay_NoDebt:
  assumes "isKYCApproved (kyc w) now sender" and "amount \<noteq> 0" and "\<not> pool_entered (pool w)"
    and "accrue (pool w) now sender = Inr p" and "debt (accounts p sender) = 0"
  shows "repay w now sender amount = Inl (Require ''No debt'')"
  using assms by (simp add: repay_def)

lemma repay_Inr:
  assumes inv: "token_inv (token w)" and ne: "sender \<noteq> poolAddress w"
    and acc: "accrue (pool w) now sender = Inr p"
    and r: "repay w now sender amount = Inr w'"
  shows "0 < debt (accounts p sender)
       \<and> (\<exists>t1. transferFrom (isKYCApproved (kyc w) now) (token w) (poolAddress w) sender (poolAddress w) amount = Inr t1
             \<and> amount \<le> balances (token w) sender
             \<and> balances t1 sender = balances (token w) sender - amount
             \<and> balances t1 (poolAddress w) = balances (token w) (poolAddress w) + amount
             \<and> (if debt (accounts p sender) \<le> amount then
                  debt (accounts (pool w') sender) = 0
                  \<and> lastAccrued (accounts (pool w') sender) = now
                  \<and> balances (token w') sender = balances t1 sender + (amount - debt (accounts p sender))
                  \<and> balances (token w') (poolAddress w) = balances t1 (poolAddress w) - (amount - debt (accounts p sender))
                else
                  debt (accounts (pool w') sender) = debt (accounts p sender) - amount
                  \<and> lastAccrued (accounts (pool w') sender) = lastAccrued (accounts p sender)
                  \<and> token w' = t1))
       \<and> collateral (accounts (pool w') sender) = collateral (accounts p sender)
       \<and> (\<forall>other. other \<noteq> sender \<longrightarrow> accounts (pool w') other = accounts p other)"
proof -
  let ?K = "isKYCApproved (kyc w) now"
  let ?a = "accounts p sender"
  from r acc have pos: "0 < debt ?a"
    by (auto simp: repay_def Let_def split: if_splits)
  from r acc pos obtain t1 where
    tf: "transferFrom ?K (token w) (poolAddress w) sender (poolAddress w) amount = Inr t1"
    by (auto simp: repay_def Let_def split: if_splits sum.splits)
  note T = transferFrom_Inr [OF inv tf ne]
  then have inv1: "token_inv t1" and le: "amount \<le> balances (token w) sender"
    and b1: "balances t1 = (balances (token w))(sender := balances (token w) sender - amount,
               poolAddress w := balances (token w) (poolAddress w) + amount)"
    by blast+
  have ne': "poolAddress w \<noteq> sender" using ne by blast
  show ?thesis
  proof (cases "debt ?a \<le> amount")
    case False
    with r acc pos tf have "w' = w\<lparr>pool := p\<lparr>accounts := (accounts p)(sender := ?a\<lparr>debt := debt ?a - amount\<rparr>)\<rparr>,
                              token := t1\<rparr>"
      by (auto simp: repay_def Let_def split: if_splits)
    with pos tf le b1 ne False show ?thesis by auto
  next
    case True
    let ?p' = "p\<lparr>accounts := (accounts p)(sender := ?a\<lparr>debt := 0, lastAccrued := now\<rparr>)\<rparr>"
    show ?thesis
    proof (cases "0 < amount - debt ?a")
      case False
      with True r acc pos tf have "w' = w\<lparr>pool := ?p', token := t1\<rparr>"
        by (auto simp: repay_def Let_def split: if_splits)
      with pos tf le b1 ne True False show ?thesis by auto
    next
      case over: True
      with True r acc pos tf obtain t2 where
        tr: "transfer ?K t1 (poolAddress w) sender (amount - debt ?a) = Inr t2"
        and w': "w' = w\<lparr>pool := ?p', token := t2\<rparr>"
        by (auto simp: repay_def Let_def split: if_splits sum.splits)
      from transfer_Inr [OF inv1 tr ne']
      have b2: "balances t2 = (balances t1)(poolAddress w := balances t1 (poolAddress w) - (amount - debt ?a),
                  sender := balances t1 sender + (amount - debt ?a))"
        by blast
      from pos tf le b1 b2 ne True w' show ?thesis by auto
    qed
  qed
qed

section \<open>The claims\<close>

text \<open>
  Claim C1 (LTV invariant). After a successful \<open>borrow\<close> or \<open>withdrawCollateral\<close> the
  caller's account satisfies \<open>debt \<le> collateral * maxLTV / 10000\<close>, with the values after the
  call and truncating division.
\<close>

theorem ltv_invariant:
  assumes "borrow w now sender amount = Inr w' \<or> withdrawCollateral w now sender amount = Inr w'"
  shows "debt (accounts (pool w') sender)
           \<le> collateral (accounts (pool w') sender) * maxLTVBps (pool w') div 10000"
  using assms borrow_ltv withdrawCollateral_ltv by blast

text \<open>
  The scenario of the spec: 50 collateral at 50 percent; borrowing 20 succeeds and the
  account ends with debt 20, below the ceiling 25.
\<close>

theorem ltv_invariant_witness:
  "debt (accounts (pool (commit ex_world (borrow ex_world 7 2 20))) 2) = 20
   \<and> collateral (accounts (pool (commit ex_world (borrow ex_world 7 2 20))) 2) = 50
   \<and> maxLTVBps (pool (commit ex_world (borrow ex_world 7 2 20))) = 5000
   \<and> debt (accounts (pool (commit ex_world (borrow ex_world 7 2 20))) 2)
       \<le> collateral (accounts (pool (commit ex_world (borrow ex_world 7 2 20))) 2)
          * maxLTVBps (pool (commit ex_world (borrow ex_world 7 2 20))) div 10000"
proof -
  obtain w' where h: "borrow ex_world 7 2 20 = Inr w'"
    using ex_borrow by blast
  have c: "commit ex_world (borrow ex_world 7 2 20) = w'"
    by (simp add: h commit_def)
  have v: "debt (accounts (pool w') 2) = 20 \<and> collateral (accounts (pool w') 2) = 50
           \<and> maxLTVBps (pool w') = 5000"
    using h by (auto simp: borrow_def accrue_def isKYCApproved_def ex_defs tok_defs arith_defs)
  from ltv_invariant [of ex_world 7 2 20 w'] h v show ?thesis
    unfolding c by simp
qed

text \<open>
  Claim C2 (conservation). Starting from the token as constructed, after every call of a
  sequence of token calls (returned or reverted) the balances add up to \<open>totalSupply\<close>; no
  balance is negative, none exceeds \<open>totalSupply\<close>, and \<open>totalSupply\<close> fits a \<open>uint256\<close>.
\<close>

theorem conservation:
  "\<forall>t \<in> set (run_token (DepositToken_constructor admin) ops).
     sum_balances t = totalSupply t
     \<and> (\<forall>a. 0 \<le> int (balances t a) \<and> balances t a \<le> totalSupply t)
     \<and> totalSupply t \<le> MAX_UINT256"
proof
  fix t
  assume "t \<in> set (run_token (DepositToken_constructor admin) ops)"
  with run_token_inv [OF constructor_inv] have inv: "token_inv t" by blast
  then have "balances t a \<le> totalSupply t" for a
    using balance_le_sum [of t a] by (simp add: token_inv_def)
  with inv show "sum_balances t = totalSupply t
     \<and> (\<forall>a. 0 \<le> int (balances t a) \<and> balances t a \<le> totalSupply t)
     \<and> totalSupply t \<le> MAX_UINT256"
    by (simp add: token_inv_def)
qed

text \<open>
  A run: the admin grants the minter role to the vault, the vault mints 100 to customer 2,
  who transfers 30 to customer 3; a burn of 500 reverts on the balance, and a burn from
  customer 3 reverts once the registry no longer approves 3.
\<close>

theorem conservation_witness:
  "map (\<lambda>t. (sum_balances t, totalSupply t, balances t 2, balances t 3))
     (run_token (DepositToken_constructor 1) ex_token_ops)
   = [(0, 0, 0, 0), (100, 100, 100, 0), (100, 100, 70, 30), (100, 100, 70, 30), (100, 100, 70, 30)]"
proof -
  have "\<forall>t \<in> set (run_token (DepositToken_constructor 1) ex_token_ops). sum_balances t = totalSupply t"
    using conservation [of 1 ex_token_ops] by blast
  then have "map (\<lambda>t. (sum_balances t, totalSupply t, balances t 2, balances t 3))
     (run_token (DepositToken_constructor 1) ex_token_ops)
     = map (\<lambda>t. (totalSupply t, totalSupply t, balances t 2, balances t 3))
     (run_token (DepositToken_constructor 1) ex_token_ops)"
    by simp
  also have "\<dots> = map (\<lambda>(s, b2, b3). (s, s, b2, b3))
      (map (\<lambda>t. (totalSupply t, balances t 2, balances t 3))
         (run_token (DepositToken_constructor 1) ex_token_ops))"
    by simp
  also have "\<dots> = [(0, 0, 0, 0), (100, 100, 100, 0), (100, 100, 70, 30), (100, 100, 70, 30), (100, 100, 70, 30)]"
    unfolding ex_token_ops_run by simp
  finally show ?thesis .
qed

text \<open>
  Claim C3 (accrual), as amended. Calls of \<open>_accrue\<close> never decrease the debt. A call that
  returns with \<open>debt > 0\<close> and \<open>dt > 0\<close> adds \<open>debt * annualRate * dt div (10000 * 31536000)\<close>,
  and the debt grows strictly exactly when \<open>debt * annualRate * dt\<close> reaches
  \<open>10000 * 31536000\<close>; below that the truncated interest is zero.
\<close>

theorem accrue_monotone:
  "debt (accounts p user) \<le> debt (accounts (accrue_seq p user ts) user)
   \<and> (0 < debt (accounts p user) \<and> lastAccrued (accounts p user) < now \<and> accrue p now user = Inr p' \<longrightarrow>
        debt (accounts p' user) = debt (accounts p user)
           + debt (accounts p user) * annualRateBps p * (now - lastAccrued (accounts p user)) div (10000 * 31536000)
      \<and> (debt (accounts p user) < debt (accounts p' user) \<longleftrightarrow>
           10000 * 31536000 \<le> debt (accounts p user) * annualRateBps p * (now - lastAccrued (accounts p user))))"
proof (intro conjI impI)
  show "debt (accounts p user) \<le> debt (accounts (accrue_seq p user ts) user)"
    by (rule accrue_seq_mono)
next
  assume h: "0 < debt (accounts p user) \<and> lastAccrued (accounts p user) < now \<and> accrue p now user = Inr p'"
  then have acc: "accrue p now user = Inr p'" by simp
  from accrue_Inr [OF acc] h
  show eq: "debt (accounts p' user) = debt (accounts p user)
           + debt (accounts p user) * annualRateBps p * (now - lastAccrued (accounts p user)) div (10000 * 31536000)"
    by (auto split: if_splits)
  have "0 < n div 315360000000 \<longleftrightarrow> 315360000000 \<le> n" for n :: nat
    by (simp add: div_greater_zero_iff)
  with eq show "debt (accounts p user) < debt (accounts p' user) \<longleftrightarrow>
           10000 * 31536000 \<le> debt (accounts p user) * annualRateBps p * (now - lastAccrued (accounts p user))"
    by simp
qed

text \<open>One year at 8 percent on a debt of 20 adds 1 (1.6 truncated).\<close>

theorem accrue_monotone_witness:
  "debt (accounts (commit cx3_pool (accrue cx3_pool 31536000 2)) 2) = 21
   \<and> debt (accounts cx3_pool 2) < debt (accounts (commit cx3_pool (accrue cx3_pool 31536000 2)) 2)"
proof -
  obtain p' where h: "accrue cx3_pool 31536000 2 = Inr p'"
    by (simp add: accrue_def cx3_pool_def LendingPool_constructor_def arith_defs)
  have pre: "0 < debt (accounts cx3_pool 2) \<and> lastAccrued (accounts cx3_pool 2) < 31536000"
    by (simp add: cx3_pool_def LendingPool_constructor_def)
  from accrue_monotone [of cx3_pool 2 "[]" 31536000 p'] h pre
  have "debt (accounts p' 2) = debt (accounts cx3_pool 2)
           + debt (accounts cx3_pool 2) * annualRateBps cx3_pool * (31536000 - lastAccrued (accounts cx3_pool 2))
               div (10000 * 31536000)"
    by blast
  then have d: "debt (accounts p' 2) = 21"
    by (simp add: cx3_pool_def LendingPool_constructor_def)
  have c: "commit cx3_pool (accrue cx3_pool 31536000 2) = p'"
    by (simp add: h commit_def)
  have d0: "debt (accounts cx3_pool 2) = 20"
    by (simp add: cx3_pool_def LendingPool_constructor_def)
  show ?thesis unfolding c d0 d by simp
qed

text \<open>
  The claim as written fails: one second at 8 percent on a debt of 20 gives
  \<open>20 * 800 * 1 div 315360000000 = 0\<close>, and the debt stays 20 although \<open>dt > 0\<close>.
\<close>

theorem accrue_strict_counterexample:
  "0 < debt (accounts cx3_pool 2) \<and> 0 < 1 - lastAccrued (accounts cx3_pool 2)
   \<and> accrue cx3_pool 1 2 = Inr (cx3_pool\<lparr>accounts := (accounts cx3_pool)(2 := \<lparr>collateral = 50, debt = 20, lastAccrued = 1\<rparr>)\<rparr>)
   \<and> \<not> debt (accounts cx3_pool 2) < debt (accounts (commit cx3_pool (accrue cx3_pool 1 2)) 2)"
  by (simp add: cx3_pool_def LendingPool_constructor_def accrue_def checked_sub_def checked_mul_def
        checked_add_def MAX_UINT256_def commit_def)

text \<open>
  Claim C4 (compliance gate), as amended. Let \<open>a\<close> be an account that the registry does not
  approve and that is not a system address. Every \<open>_update\<close> that debits or credits \<open>a\<close>
  reverts with \<open>NotKYCApproved\<close> and leaves the token as it is. The error names \<open>a\<close>, except
  for a transfer to \<open>a\<close> from a party that is itself neither approved nor a system address:
  the debited party is checked first and the error names it. A mint or burn by a minter and a
  transfer by \<open>a\<close> itself revert with \<open>NotKYCApproved a\<close>.
\<close>

theorem noncompliant_rejected:
  assumes "\<not> K a" and "\<not> isSystemAddress t a" and "a \<noteq> 0" and "a = from \<or> a = to"
  shows "DepositToken_update K t from to v
           = Inl (NotKYCApproved
                   (if from \<noteq> 0 \<and> \<not> isSystemAddress t from \<and> \<not> K from then from else a))
       \<and> commit t (DepositToken_update K t from to v) = t
       \<and> (tok_hasRole t MINTER_ROLE sender \<longrightarrow>
            mint K t sender a v = Inl (NotKYCApproved a) \<and> burn K t sender a v = Inl (NotKYCApproved a))
       \<and> (to \<noteq> 0 \<longrightarrow> transfer K t a to v = Inl (NotKYCApproved a))
       \<and> (from \<noteq> 0 \<and> (isSystemAddress t from \<or> K from) \<longrightarrow>
            transfer K t from a v = Inl (NotKYCApproved a))"
  using assms
  by (auto simp: DepositToken_update_def commit_def mint_def burn_def transfer_def ERC20_mint_def
      ERC20_burn_def ERC20_transfer_def onlyRole_def)

text \<open>Customer 3 is not approved in this block: minting to, burning from and transferring to or from 3 revert.\<close>

theorem noncompliant_rejected_witness:
  "transfer (\<lambda>a. a \<noteq> 3) ex_token 2 3 5 = Inl (NotKYCApproved 3)
   \<and> mint (\<lambda>a. a \<noteq> 3) ex_token 10 3 5 = Inl (NotKYCApproved 3)
   \<and> burn (\<lambda>a. a \<noteq> 3) ex_token 10 3 5 = Inl (NotKYCApproved 3)
   \<and> transfer (\<lambda>a. a \<noteq> 3) ex_token 3 2 5 = Inl (NotKYCApproved 3)"
proof -
  have h: "\<not> (\<lambda>a::address. a \<noteq> 3) 3" "\<not> isSystemAddress ex_token 3" "(3::address) \<noteq> 0"
    by (simp_all add: ex_token_def)
  have m: "tok_hasRole ex_token MINTER_ROLE 10" by (simp add: ex_token_def)
  have k2: "(2::address) \<noteq> 0 \<and> (isSystemAddress ex_token 2 \<or> (\<lambda>a::address. a \<noteq> 3) 2)" by simp
  from noncompliant_rejected [of "\<lambda>a. a \<noteq> 3" 3 ex_token 3 2 5 10, OF h]
       noncompliant_rejected [of "\<lambda>a. a \<noteq> 3" 3 ex_token 2 3 5 10, OF h] m k2
  show ?thesis by simp
qed

text \<open>
  The claim as written fails for a transfer between two parties that are both rejected: the
  transfer that would credit 3 reverts with the name of the debited party 2.
\<close>

theorem noncompliant_pair_counterexample:
  "\<not> (\<lambda>a::address. False) 3 \<and> \<not> isSystemAddress cx4_token 3
   \<and> transfer (\<lambda>a. False) cx4_token 2 3 5 = Inl (NotKYCApproved 2)
   \<and> transfer (\<lambda>a. False) cx4_token 2 3 5 \<noteq> Inl (NotKYCApproved 3)"
  by (simp add: cx4_token_def DepositToken_constructor_def tok_defs)

text \<open>
  Claim C5 (repay). For an approved caller and a non-zero amount, with \<open>p\<close> the pool after
  \<open>_accrue\<close>: if the accrued debt is zero, \<open>repay\<close> reverts with "No debt". If \<open>repay\<close>
  returns, the accrued debt was positive and \<open>amount\<close> tokens were pulled from the caller into
  the pool; if \<open>amount \<ge> debt\<close> the debt becomes 0, \<open>lastAccrued\<close> becomes the current time and
  \<open>amount - debt\<close> is sent back to the caller; otherwise the debt decreases by exactly
  \<open>amount\<close> and \<open>lastAccrued\<close> stays as \<open>_accrue\<close> left it.
\<close>

theorem repay_correct:
  assumes "isKYCApproved (kyc w) now sender" and "amount \<noteq> 0" and "\<not> pool_entered (pool w)"
    and "sender \<noteq> poolAddress w" and "token_inv (token w)"
    and "accrue (pool w) now sender = Inr p"
  shows "(debt (accounts p sender) = 0 \<longrightarrow> repay w now sender amount = Inl (Require ''No debt''))
       \<and> (\<forall>w'. repay w now sender amount = Inr w' \<longrightarrow>
             0 < debt (accounts p sender)
           \<and> amount \<le> balances (token w) sender
           \<and> collateral (accounts (pool w') sender) = collateral (accounts p sender)
           \<and> (if debt (accounts p sender) \<le> amount then
                debt (accounts (pool w') sender) = 0
                \<and> lastAccrued (accounts (pool w') sender) = now
                \<and> balances (token w') sender
                    = balances (token w) sender - amount + (amount - debt (accounts p sender))
                \<and> balances (token w') (poolAddress w)
                    = balances (token w) (poolAddress w) + amount - (amount - debt (accounts p sender))
              else
                debt (accounts (pool w') sender) = debt (accounts p sender) - amount
                \<and> lastAccrued (accounts (pool w') sender) = lastAccrued (accounts p sender)
                \<and> balances (token w') sender = balances (token w) sender - amount
                \<and> balances (token w') (poolAddress w) = balances (token w) (poolAddress w) + amount))"
proof (intro conjI allI impI)
  assume "debt (accounts p sender) = 0"
  with assms show "repay w now sender amount = Inl (Require ''No debt'')"
    by (simp add: repay_NoDebt)
next
  fix w'
  assume r: "repay w now sender amount = Inr w'"
  from repay_Inr [OF assms(5) assms(4) assms(6) r]
  show "0 < debt (accounts p sender)" "amount \<le> balances (token w) sender"
    "collateral (accounts (pool w') sender) = collateral (accounts p sender)"
    "if debt (accounts p sender) \<le> amount then
                debt (accounts (pool w') sender) = 0
                \<and> lastAccrued (accounts (pool w') sender) = now
                \<and> balances (token w') sender
                    = balances (token w) sender - amount + (amount - debt (accounts p sender))
                \<and> balances (token w') (poolAddress w)
                    = balances (token w) (poolAddress w) + amount - (amount - debt (accounts p sender))
              else
                debt (accounts (pool w') sender) = debt (accounts p sender) - amount
                \<and> lastAccrued (accounts (pool w') sender) = lastAccrued (accounts p sender)
                \<and> balances (token w') sender = balances (token w) sender - amount
                \<and> balances (token w') (poolAddress w) = balances (token w) (poolAddress w) + amount"
    by (auto split: if_splits)
qed


text \<open>
  The scenario of the spec in integers: after one year a debt of 20 has become 21; repaying 25
  clears it and refunds 4; repaying 5 leaves 16.
\<close>

theorem repay_correct_witness:
  "debt (accounts (commit cx3_pool (accrue cx3_pool 31536000 2)) 2) = 21
   \<and> balances (token ex_world_debt) 2 = 100 \<and> balances (token ex_world_debt) 11 = 1000
   \<and> debt (accounts (pool (commit ex_world_debt (repay ex_world_debt 31536000 2 25))) 2) = 0
   \<and> lastAccrued (accounts (pool (commit ex_world_debt (repay ex_world_debt 31536000 2 25))) 2) = 31536000
   \<and> balances (token (commit ex_world_debt (repay ex_world_debt 31536000 2 25))) 2 = 79
   \<and> balances (token (commit ex_world_debt (repay ex_world_debt 31536000 2 25))) 11 = 1021
   \<and> debt (accounts (pool (commit ex_world_debt (repay ex_world_debt 31536000 2 5))) 2) = 16
   \<and> balances (token (commit ex_world_debt (repay ex_world_debt 31536000 2 5))) 2 = 95"
proof -
  obtain p where a: "accrue (pool ex_world_debt) 31536000 2 = Inr p"
    by (simp add: ex_world_debt_def accrue_def cx3_pool_def LendingPool_constructor_def arith_defs)
  have pc: "accrue cx3_pool 31536000 2 = Inr p"
    using a by (simp add: ex_world_debt_def)
  from accrue_Inr [OF pc] have d: "debt (accounts p 2) = 21"
    by (simp add: cx3_pool_def LendingPool_constructor_def)
  have c0: "commit cx3_pool (accrue cx3_pool 31536000 2) = p"
    unfolding pc commit_def by simp
  have h: "isKYCApproved (kyc ex_world_debt) 31536000 2" "\<not> pool_entered (pool ex_world_debt)"
    "(2::address) \<noteq> poolAddress ex_world_debt" "token_inv (token ex_world_debt)"
    by (simp_all add: ex_world_debt_def ex_defs cx3_pool_def isKYCApproved_def ex_token_inv [unfolded ex_token_def])
  have v: "balances (token ex_world_debt) 2 = 100 \<and> balances (token ex_world_debt) 11 = 1000
           \<and> poolAddress ex_world_debt = 11"
    by (simp add: ex_world_debt_def ex_defs)
  obtain w1 where r1: "repay ex_world_debt 31536000 2 25 = Inr w1"
    by (simp add: repay_def accrue_def ex_world_debt_def ex_defs isKYCApproved_def cx3_pool_def
        tok_defs arith_defs)
  obtain w2 where r2: "repay ex_world_debt 31536000 2 5 = Inr w2"
    by (simp add: repay_def accrue_def ex_world_debt_def ex_defs isKYCApproved_def cx3_pool_def
        tok_defs arith_defs)
  have c1: "commit ex_world_debt (repay ex_world_debt 31536000 2 25) = w1"
    unfolding r1 commit_def by simp
  have c2: "commit ex_world_debt (repay ex_world_debt 31536000 2 5) = w2"
    unfolding r2 commit_def by simp
  from repay_correct [OF h(1) _ h(2) h(3) h(4) a, of 25] r1 d v
  have 1: "debt (accounts (pool w1) 2) = 0 \<and> lastAccrued (accounts (pool w1) 2) = 31536000
           \<and> balances (token w1) 2 = 79 \<and> balances (token w1) 11 = 1021"
    by simp
  from repay_correct [OF h(1) _ h(2) h(3) h(4) a, of 5] r2 d v
  have 2: "debt (accounts (pool w2) 2) = 16 \<and> balances (token w2) 2 = 95"
    by simp
  from 1 2 d v show ?thesis unfolding c0 c1 c2 by simp
qed

text \<open>
  Claim C6 (payout failure). For an approved caller and a non-zero amount, when the burn has
  gone through and the value call fails, \<open>withdraw\<close> reverts with "ETH transfer failed" and
  the storage that persists is the storage before the call: the burn does not persist.
\<close>

theorem withdraw_payout_failure_atomic:
  assumes "isKYCApproved (kyc w) now sender" and "amount \<noteq> 0" and "\<not> vault_entered (vault w)"
    and "burn (isKYCApproved (kyc w) now) (token w) (vaultAddress w) sender amount = Inr t"
    and "call_value callee (w\<lparr>vault := (vault w)\<lparr>vault_entered := True\<rparr>, token := t\<rparr>)
           (vaultAddress w) sender amount = None"
  shows "withdraw callee w now sender amount = Inl (Require ''ETH transfer failed'')
       \<and> commit w (withdraw callee w now sender amount) = w
       \<and> totalSupply (token (commit w (withdraw callee w now sender amount))) = totalSupply (token w)
       \<and> balances (token (commit w (withdraw callee w now sender amount))) = balances (token w)"
  using assms by (simp add: withdraw_def commit_def Let_def)

text \<open>Customer 3 is a contract that refuses ether: its withdrawal of 10 reverts and its 40 tokens remain.\<close>

theorem withdraw_payout_failure_atomic_witness:
  "withdraw rejecting ex_world 7 3 10 = Inl (Require ''ETH transfer failed'')
   \<and> balances (token (commit ex_world (withdraw rejecting ex_world 7 3 10))) 3 = 40
   \<and> totalSupply (token (commit ex_world (withdraw rejecting ex_world 7 3 10))) = 1140"
proof -
  obtain t where b: "burn (isKYCApproved (kyc ex_world) 7) (token ex_world) (vaultAddress ex_world) 3 10 = Inr t"
    by (simp add: ex_defs isKYCApproved_def tok_defs)
  have c: "call_value rejecting (ex_world\<lparr>vault := (vault ex_world)\<lparr>vault_entered := True\<rparr>, token := t\<rparr>)
             (vaultAddress ex_world) 3 10 = None"
    by (simp add: call_value_def rejecting_def Let_def)
  have h: "isKYCApproved (kyc ex_world) 7 3" "(10::nat) \<noteq> 0" "\<not> vault_entered (vault ex_world)"
    by (simp_all add: ex_defs isKYCApproved_def)
  have v: "balances (token ex_world) 3 = 40 \<and> totalSupply (token ex_world) = 1140"
    by (simp add: ex_defs)
  from withdraw_payout_failure_atomic [OF h b c] v show ?thesis
    by (simp add: commit_def)
qed

text \<open>
  Claim C7 (pending consumption), as amended. \<open>approveFromRequest\<close> returns only when a
  non-zero commitment is pending for the account; it then stores the record and clears the
  commitment. After that, and after any further registry calls among which the account
  publishes no new request, every approval of the account reverts and leaves the registry as
  it is: with the missing-request error when its caller passes the officer gate, and with
  the error of the gate otherwise. The same holds for the alias \<open>approveKYC\<close>.
\<close>

theorem approveFromRequest_consumes_pending:
  assumes "approveFromRequest r now sender user lvl exp = Inr r'"
  shows "pendingKycHash r user \<noteq> 0
       \<and> kyc_info r' user = \<lparr>approved = True, level = lvl, expiresAt = exp\<rparr>
       \<and> pendingKycHash r' user = 0
       \<and> (\<forall>ops now2 sender2 lvl2 exp2.
            (\<forall>tc \<in> set ops. \<not> requests_for user (snd tc)) \<longrightarrow>
              approveFromRequest (run_kyc r' ops) now2 sender2 user lvl2 exp2
                = Inl (case onlyComplianceApproved (run_kyc r' ops) now2 sender2 of
                         Some e \<Rightarrow> e
                       | None \<Rightarrow> Require ''No on-chain pending request'')
            \<and> commit (run_kyc r' ops) (approveFromRequest (run_kyc r' ops) now2 sender2 user lvl2 exp2)
                = run_kyc r' ops
            \<and> approveKYC (run_kyc r' ops) now2 sender2 user
                = Inl (case onlyComplianceApproved (run_kyc r' ops) now2 sender2 of
                         Some e \<Rightarrow> e
                       | None \<Rightarrow> Require ''No on-chain pending request''))"
proof -
  from assms have first: "pendingKycHash r user \<noteq> 0"
    "kyc_info r' user = \<lparr>approved = True, level = lvl, expiresAt = exp\<rparr>"
    "pendingKycHash r' user = 0"
    by (auto simp: approveFromRequest_def split: option.splits if_splits)
  have later: "approveFromRequest (run_kyc r' ops) now2 sender2 user lvl2 exp2
                = Inl (case onlyComplianceApproved (run_kyc r' ops) now2 sender2 of
                         Some e \<Rightarrow> e
                       | None \<Rightarrow> Require ''No on-chain pending request'')
            \<and> commit (run_kyc r' ops) (approveFromRequest (run_kyc r' ops) now2 sender2 user lvl2 exp2)
                = run_kyc r' ops
            \<and> approveKYC (run_kyc r' ops) now2 sender2 user
                = Inl (case onlyComplianceApproved (run_kyc r' ops) now2 sender2 of
                         Some e \<Rightarrow> e
                       | None \<Rightarrow> Require ''No on-chain pending request'')"
    if "\<forall>tc \<in> set ops. \<not> requests_for user (snd tc)" for ops now2 sender2 lvl2 exp2
  proof -
    have z: "pendingKycHash (run_kyc r' ops) user = 0"
      using first(3) that by (rule pending_zero_run)
    have a: "approveFromRequest (run_kyc r' ops) now2 sender2 user lvl2 exp2
                = Inl (case onlyComplianceApproved (run_kyc r' ops) now2 sender2 of
                         Some e \<Rightarrow> e
                       | None \<Rightarrow> Require ''No on-chain pending request'')"
      using z by (rule approve_without_pending)
    have b: "approveKYC (run_kyc r' ops) now2 sender2 user
                = Inl (case onlyComplianceApproved (run_kyc r' ops) now2 sender2 of
                         Some e \<Rightarrow> e
                       | None \<Rightarrow> Require ''No on-chain pending request'')"
      using z by (simp add: approveKYC_def split: option.splits)
    show ?thesis unfolding a using b by (simp add: commit_def)
  qed
  from first later show ?thesis by blast
qed

text \<open>
  The admin approves the pending commitment of customer 4. A second approval at once
  reverts for want of a pending request, and so does one made after the admin has revoked
  customer 4.
\<close>

theorem approveFromRequest_consumes_pending_witness:
  "pendingKycHash ex_kyc_pending 4 = 9
   \<and> approveFromRequest ex_kyc_pending 100 1 4 1 0 = Inr ex_kyc_approved
   \<and> pendingKycHash ex_kyc_approved 4 = 0
   \<and> approveFromRequest ex_kyc_approved 100 1 4 1 0 = Inl (Require ''No on-chain pending request'')
   \<and> approveFromRequest (run_kyc ex_kyc_approved [(101, RevokeKYC 1 4)]) 102 1 4 1 0
       = Inl (Require ''No on-chain pending request'')"
proof -
  have h: "approveFromRequest ex_kyc_pending 100 1 4 1 0 = Inr ex_kyc_approved"
    by (simp add: ex_kyc_approved_def ex_kyc_pending_def kyc_defs KYCRegistry_constructor_def commit_def)
  have p: "pendingKycHash ex_kyc_pending 4 = 9"
    by (simp add: ex_kyc_pending_def kyc_defs KYCRegistry_constructor_def commit_def)
  have g0: "onlyComplianceApproved (run_kyc ex_kyc_approved []) 100 1 = None"
    by (simp add: ex_kyc_approved_def ex_kyc_pending_def kyc_defs KYCRegistry_constructor_def commit_def)
  have g1: "onlyComplianceApproved (run_kyc ex_kyc_approved [(101, RevokeKYC 1 4)]) 102 1 = None"
    by (simp add: ex_kyc_approved_def ex_kyc_pending_def kyc_defs KYCRegistry_constructor_def commit_def)
  have n0: "\<forall>tc \<in> set ([] :: (uint256 \<times> kyc_op) list). \<not> requests_for 4 (snd tc)" by simp
  have n1: "\<forall>tc \<in> set [(101::uint256, RevokeKYC 1 4)]. \<not> requests_for 4 (snd tc)" by simp
  note T = approveFromRequest_consumes_pending [OF h]
  from T have z: "pendingKycHash ex_kyc_approved 4 = 0" by blast
  from T n0 have "approveFromRequest (run_kyc ex_kyc_approved []) 100 1 4 1 0
      = Inl (case onlyComplianceApproved (run_kyc ex_kyc_approved []) 100 1 of
               Some e \<Rightarrow> e | None \<Rightarrow> Require ''No on-chain pending request'')"
    by blast
  then have a0: "approveFromRequest ex_kyc_approved 100 1 4 1 0 = Inl (Require ''No on-chain pending request'')"
    unfolding g0 by simp
  from T n1 have "approveFromRequest (run_kyc ex_kyc_approved [(101, RevokeKYC 1 4)]) 102 1 4 1 0
      = Inl (case onlyComplianceApproved (run_kyc ex_kyc_approved [(101, RevokeKYC 1 4)]) 102 1 of
               Some e \<Rightarrow> e | None \<Rightarrow> Require ''No on-chain pending request'')"
    by blast
  then have a1: "approveFromRequest (run_kyc ex_kyc_approved [(101, RevokeKYC 1 4)]) 102 1 4 1 0
      = Inl (Require ''No on-chain pending request'')"
    unfolding g1 by simp
  from h p z a0 a1 show ?thesis by blast
qed

text \<open>
  The claim as written fails when the officer approves its own pending commitment with an
  expiry that has passed: the second call reverts at the officer gate, before the pending
  commitment is looked at.
\<close>

theorem approve_twice_counterexample:
  "approveFromRequest cx7_pending 100 1 1 1 50 = Inr cx7_approved
   \<and> approveFromRequest cx7_approved 100 1 1 1 50 = Inl (Require ''Admin must be KYC-approved'')
   \<and> approveFromRequest cx7_approved 100 1 1 1 50 \<noteq> Inl (Require ''No on-chain pending request'')"
  by (simp add: cx7_approved_def cx7_pending_def kyc_defs KYCRegistry_constructor_def commit_def)

text \<open>
  Claim C8 (revoke). A \<open>revokeKYC\<close> that returns clears \<open>approved\<close> for the account, so that
  \<open>isKYCApproved\<close> is false for it at every time, and leaves its level and expiry, every
  pending commitment, the roles and every other account's record as they were.
\<close>

theorem revokeKYC_frame:
  assumes "revokeKYC r now sender user = Inr r'"
  shows "\<not> approved (kyc_info r' user)
       \<and> (\<forall>t. \<not> isKYCApproved r' t user)
       \<and> level (kyc_info r' user) = level (kyc_info r user)
       \<and> expiresAt (kyc_info r' user) = expiresAt (kyc_info r user)
       \<and> pendingKycHash r' = pendingKycHash r
       \<and> kyc_hasRole r' = kyc_hasRole r
       \<and> (\<forall>other. other \<noteq> user \<longrightarrow> kyc_info r' other = kyc_info r other)"
  using assms
  by (auto simp: revokeKYC_def isKYCApproved_def split: option.splits)

text \<open>The bootstrap admin revokes itself: approved before, not after, its level still 1.\<close>

theorem revokeKYC_frame_witness:
  "isKYCApproved (KYCRegistry_constructor 1) 5 1
   \<and> \<not> isKYCApproved (commit (KYCRegistry_constructor 1) (revokeKYC (KYCRegistry_constructor 1) 5 1 1)) 5 1
   \<and> level (kyc_info (commit (KYCRegistry_constructor 1) (revokeKYC (KYCRegistry_constructor 1) 5 1 1)) 1) = 1"
proof -
  obtain r' where h: "revokeKYC (KYCRegistry_constructor 1) 5 1 1 = Inr r'"
    by (simp add: kyc_defs KYCRegistry_constructor_def)
  have c: "commit (KYCRegistry_constructor 1) (revokeKYC (KYCRegistry_constructor 1) 5 1 1) = r'"
    by (simp add: h commit_def)
  have a: "isKYCApproved (KYCRegistry_constructor 1) 5 1"
    by (simp add: kyc_defs KYCRegistry_constructor_def)
  have l: "level (kyc_info (KYCRegistry_constructor 1) 1) = 1"
    by (simp add: KYCRegistry_constructor_def)
  from revokeKYC_frame [OF h] a l show ?thesis
    unfolding c by simp
qed

text \<open>
  Claim C9 (round trip), as amended. Let the code of the caller change no state when it
  receives the payout (an externally owned account, or a contract whose receive function
  changes nothing). Then a \<open>deposit\<close> of \<open>X\<close> followed at once by a \<open>withdraw\<close> of \<open>X\<close>, both
  returning, brings the caller's ether, the caller's token balance and \<open>totalSupply\<close> back to
  their values before the deposit. Lemma \<open>deposit_withdraw_returns\<close> gives the conditions
  under which both calls return. Transaction fees are outside the contracts and the model.
\<close>

theorem deposit_withdraw_roundtrip:
  assumes inv: "token_inv (token w)"
    and quiet: "\<forall>v v'. callee v = Some v' \<longrightarrow> v' = v"
    and d: "deposit w now sender X = Inr w1"
    and wd: "withdraw callee w1 now2 sender X = Inr w2"
  shows "ethBalance w2 sender = ethBalance w sender
       \<and> balances (token w2) sender = balances (token w) sender
       \<and> totalSupply (token w2) = totalSupply (token w)"
proof -
  note D = deposit_Inr [OF inv d]
  then have inv1: "token_inv (token w1)" by blast
  note W = withdraw_Inr [OF inv1 quiet wd]
  from D have e1: "ethBalance w1 sender =
      (if sender = vaultAddress w then ethBalance w sender else ethBalance w sender - X)"
    and v1: "vaultAddress w1 = vaultAddress w"
    and b1: "balances (token w1) sender = balances (token w) sender + X"
    and t1: "totalSupply (token w1) = totalSupply (token w) + X"
    and le: "X \<le> ethBalance w sender"
    by auto
  from W have e2: "ethBalance w2 sender =
      (if sender = vaultAddress w1 then ethBalance w1 sender - X + X else ethBalance w1 sender + X)"
    and b2: "balances (token w2) sender = balances (token w1) sender - X"
    and t2: "totalSupply (token w2) = totalSupply (token w1) - X"
    and le2: "X \<le> ethBalance w1 (vaultAddress w1)"
    by auto
  from e1 e2 v1 le le2 have "ethBalance w2 sender = ethBalance w sender" by auto
  with b1 b2 t1 t2 show ?thesis by simp
qed

text \<open>Customer 2, an externally owned account, deposits 100 and withdraws 100.\<close>

theorem deposit_withdraw_roundtrip_witness:
  "ethBalance ex_world 2 = 1000 \<and> balances (token ex_world) 2 = 100 \<and> totalSupply (token ex_world) = 1140
   \<and> ethBalance ex_world_deposited 2 = 900 \<and> balances (token ex_world_deposited) 2 = 200
   \<and> totalSupply (token ex_world_deposited) = 1240
   \<and> ethBalance (commit ex_world_deposited (withdraw externally_owned ex_world_deposited 8 2 100)) 2 = 1000
   \<and> balances (token (commit ex_world_deposited (withdraw externally_owned ex_world_deposited 8 2 100))) 2 = 100
   \<and> totalSupply (token (commit ex_world_deposited (withdraw externally_owned ex_world_deposited 8 2 100))) = 1140"
proof -
  have inv: "token_inv (token ex_world)" by (simp add: ex_world_def ex_token_inv)
  have quiet: "\<forall>v v'. externally_owned v = Some v' \<longrightarrow> v' = v"
    by (simp add: externally_owned_def)
  have "\<exists>w1 w2. deposit ex_world 7 2 100 = Inr w1 \<and> withdraw externally_owned w1 8 2 100 = Inr w2"
    by (rule deposit_withdraw_returns [OF inv])
       (simp_all add: ex_defs isKYCApproved_def MAX_UINT256_def externally_owned_def)
  then obtain w1 w2 where d: "deposit ex_world 7 2 100 = Inr w1"
    and wd: "withdraw externally_owned w1 8 2 100 = Inr w2" by blast
  have c1: "ex_world_deposited = w1"
    unfolding ex_world_deposited_def d commit_def by simp
  have c2: "commit w1 (withdraw externally_owned w1 8 2 100) = w2"
    unfolding wd commit_def by simp
  have v0: "ethBalance ex_world 2 = 1000 \<and> balances (token ex_world) 2 = 100
            \<and> totalSupply (token ex_world) = 1140"
    by (simp add: ex_defs)
  from deposit_Inr [OF inv d]
  have v1: "ethBalance w1 2 = 900 \<and> balances (token w1) 2 = 200 \<and> totalSupply (token w1) = 1240"
    by (auto simp: ex_defs)
  from deposit_withdraw_roundtrip [OF inv quiet d wd] v0 v1 show ?thesis
    unfolding c1 c2 by simp
qed

text \<open>
  The claim as written fails for a caller with code. Let customer 2 be an approved contract
  whose receive function transfers one of its tokens to customer 3. Its deposit of 100 and
  its withdrawal of 100 both return; the ether is back at 1000 and \<open>totalSupply\<close> at 1140,
  but the token balance of 2 is 99 and not the 100 it had before the deposit.
\<close>

theorem roundtrip_receive_counterexample:
  "\<not> isl (deposit ex_world 7 2 100)
   \<and> \<not> isl (withdraw cx9_receive ex_world_deposited 8 2 100)
   \<and> balances (token ex_world) 2 = 100
   \<and> balances (token (commit ex_world_deposited (withdraw cx9_receive ex_world_deposited 8 2 100))) 2 = 99
   \<and> ethBalance (commit ex_world_deposited (withdraw cx9_receive ex_world_deposited 8 2 100)) 2 = 1000
   \<and> totalSupply (token (commit ex_world_deposited (withdraw cx9_receive ex_world_deposited 8 2 100))) = 1140"
proof -
  have d: "deposit ex_world 7 2 100 =
     Inr (ex_world\<lparr>ethBalance := (\<lambda>a. 0)(2 := 900, 10 := 1240),
            token := ex_token\<lparr>totalSupply := 1240,
                       balances := (\<lambda>a. 0)(2 := 200, 3 := 40, 11 := 1000)\<rparr>\<rparr>)"
    by (simp add: deposit_def Let_def isKYCApproved_def ex_defs tok_defs arith_defs)
       (auto simp: fun_eq_iff)
  have w1: "ex_world_deposited = ex_world\<lparr>ethBalance := (\<lambda>a. 0)(2 := 900, 10 := 1240),
            token := ex_token\<lparr>totalSupply := 1240,
                       balances := (\<lambda>a. 0)(2 := 200, 3 := 40, 11 := 1000)\<rparr>\<rparr>"
    unfolding ex_world_deposited_def d commit_def by simp
  have wd: "\<exists>w2. withdraw cx9_receive ex_world_deposited 8 2 100 = Inr w2
      \<and> balances (token w2) 2 = 99 \<and> ethBalance w2 2 = 1000 \<and> totalSupply (token w2) = 1140"
    unfolding w1
    by (simp add: withdraw_def call_value_def cx9_receive_def Let_def isKYCApproved_def ex_defs
        tok_defs arith_defs)
  then obtain w2 where r: "withdraw cx9_receive ex_world_deposited 8 2 100 = Inr w2"
    and v: "balances (token w2) 2 = 99 \<and> ethBalance w2 2 = 1000 \<and> totalSupply (token w2) = 1140"
    by blast
  have c: "commit ex_world_deposited (withdraw cx9_receive ex_world_deposited 8 2 100) = w2"
    unfolding r commit_def by simp
  have b0: "balances (token ex_world) 2 = 100" by (simp add: ex_defs)
  show ?thesis unfolding c using d r v b0 by simp
qed

text \<open>
  Claim C10 (rate change). \<open>setParams\<close> touches no account. For an account with debt whose
  \<open>lastAccrued\<close> lies before the change at \<open>tchange\<close>, the next \<open>_accrue\<close> charges the new rate
  on the whole time since \<open>lastAccrued\<close>: the part before the change and the part after it.
\<close>

theorem setParams_no_accrual:
  assumes "setParams p sender ltv rate = Inr p'"
  shows "accounts p' = accounts p \<and> annualRateBps p' = rate \<and> maxLTVBps p' = ltv
       \<and> (\<forall>user tchange now p''.
            0 < debt (accounts p user) \<and> lastAccrued (accounts p user) \<le> tchange \<and> tchange \<le> now
            \<and> lastAccrued (accounts p user) < now \<and> accrue p' now user = Inr p'' \<longrightarrow>
            debt (accounts p'' user) = debt (accounts p user)
               + debt (accounts p user) * rate
                   * ((tchange - lastAccrued (accounts p user)) + (now - tchange)) div (10000 * 31536000))"
proof -
  from assms have p': "p' = p\<lparr>maxLTVBps := ltv, annualRateBps := rate\<rparr>"
    by (auto simp: setParams_def split: option.splits if_splits)
  show ?thesis
  proof (intro conjI allI impI)
    fix user tchange now p''
    assume h: "0 < debt (accounts p user) \<and> lastAccrued (accounts p user) \<le> tchange \<and> tchange \<le> now
            \<and> lastAccrued (accounts p user) < now \<and> accrue p' now user = Inr p''"
    then have acc: "accrue p' now user = Inr p''" by simp
    have dt: "(tchange - lastAccrued (accounts p user)) + (now - tchange) = now - lastAccrued (accounts p user)"
      using h by simp
    from accrue_Inr [OF acc] h show "debt (accounts p'' user) = debt (accounts p user)
               + debt (accounts p user) * rate
                   * ((tchange - lastAccrued (accounts p user)) + (now - tchange)) div (10000 * 31536000)"
      unfolding dt by (auto simp: p' split: if_splits)
  qed (simp_all add: p')
qed

text \<open>
  A debt of 20 untouched for one year: at 8 percent the accrual gives 21; once the rate is
  set to 16 percent, even half way through the year, it gives 23.
\<close>

theorem setParams_no_accrual_witness:
  "setParams cx3_pool 1 5000 1600 = Inr (cx3_pool\<lparr>maxLTVBps := 5000, annualRateBps := 1600\<rparr>)
   \<and> debt (accounts (commit cx3_pool (accrue cx3_pool 31536000 2)) 2) = 21
   \<and> debt (accounts (commit (cx3_pool\<lparr>maxLTVBps := 5000, annualRateBps := 1600\<rparr>)
         (accrue (cx3_pool\<lparr>maxLTVBps := 5000, annualRateBps := 1600\<rparr>) 31536000 2)) 2) = 23"
proof -
  let ?p' = "cx3_pool\<lparr>maxLTVBps := 5000, annualRateBps := 1600\<rparr>"
  have s: "setParams cx3_pool 1 5000 1600 = Inr ?p'"
    by (simp add: setParams_def onlyRole_def cx3_pool_def LendingPool_constructor_def)
  obtain p'' where a: "accrue ?p' 31536000 2 = Inr p''"
    by (simp add: accrue_def cx3_pool_def LendingPool_constructor_def arith_defs)
  have old: "debt (accounts (commit cx3_pool (accrue cx3_pool 31536000 2)) 2) = 21"
    by (simp add: accrue_def cx3_pool_def LendingPool_constructor_def arith_defs commit_def)
  have pre: "0 < debt (accounts cx3_pool 2) \<and> lastAccrued (accounts cx3_pool 2) \<le> 15768000
     \<and> (15768000::nat) \<le> 31536000 \<and> lastAccrued (accounts cx3_pool 2) < 31536000"
    by (simp add: cx3_pool_def LendingPool_constructor_def)
  from setParams_no_accrual [OF s] pre a
  have "debt (accounts p'' 2) = debt (accounts cx3_pool 2)
               + debt (accounts cx3_pool 2) * 1600
                   * ((15768000 - lastAccrued (accounts cx3_pool 2)) + (31536000 - 15768000)) div (10000 * 31536000)"
    by blast
  then have "debt (accounts p'' 2) = 23"
    by (simp add: cx3_pool_def LendingPool_constructor_def)
  with s old a show ?thesis by (simp add: commit_def)
qed

end
